theory Spec2Isabelle
  imports Main "HOL-Library.Log_Nat" "HOL-Library.Multiset"
begin

section \<open>Package Stalker: domain model\<close>

text \<open>
  The embedding follows \<^verbatim>\<open>src/domain/types.ts\<close>,
  \<^verbatim>\<open>src/services/track123.service.ts\<close> and
  \<^verbatim>\<open>src/services/storage.service.ts\<close>.
  A TypeScript interface is a record, a string-literal union is a datatype, an optional
  property is an \<open>option\<close>, a thrown \<^verbatim>\<open>Error\<close> is the left
  injection of a sum.
\<close>

subsection \<open>Delivery status, carrier, event, tracking\<close>

datatype delivery_status =
    Pending
  | Info_received
  | In_transit
  | Out_for_delivery
  | Delivered
  | Exception
  | Failed_attempt
  | Expired
  | Unknown

text \<open>
  A JavaScript \<^verbatim>\<open>Date\<close> holds a time value: an integral number of
  milliseconds since the epoch, or NaN (an invalid date). The bound of 8.64e15 on the
  magnitude of a time value is not modelled.
\<close>

datatype date = Invalid_Date | Date int

record carrier =
  code :: string
  name :: string
  logo :: "string option"
  trackingUrl :: "string option"

record tracking_event =
  timestamp :: date
  location :: string
  description :: string
  event_status :: delivery_status

text \<open>
  \<^verbatim>\<open>transitDays\<close> is a \<^verbatim>\<open>number\<close>, an IEEE 754 binary64
  value. A finite number is the rational it denotes; NaN and the infinities are not
  modelled.
\<close>

record tracking =
  tracking_id :: string
  trackingNumber :: string
  nickname :: string
  carrier :: carrier
  status :: delivery_status
  events :: "tracking_event list"
  estimatedDelivery :: "date option"
  transitDays :: "rat option"
  createdAt :: date
  updatedAt :: date

record monthly_stats =
  month :: string
  totalPackages :: nat
  delivered :: nat
  inTransit :: nat

record courier_distribution =
  carrierCode :: string
  carrierName :: string
  count :: nat
  percentage :: int
  avgTransitDays :: "int option"

datatype error = Error string

subsection \<open>The gateway's wire format\<close>

record tracking_detail =
  eventTime :: string
  eventDetail :: string
  detail_location :: "string option"
  transitSubStatus :: "string option"

record local_logistics_info =
  courierCode :: string
  courierNameEN :: string
  trackingDetails :: "tracking_detail list option"

record tracking_content =
  trackNo :: string
  transitStatus :: string
  content_transitDays :: "rat option"
  localLogisticsInfo :: "local_logistics_info option"

record accepted =
  content :: "tracking_content list option"

record query_response_data =
  accepted :: "accepted option"

record base_response =
  response_code :: string
  msg :: "string option"
  data :: "query_response_data option"

text \<open>
  What \<^verbatim>\<open>fetch\<close> gives back: the promise rejects, or it resolves to a
  response with a status and a body whose \<^verbatim>\<open>json()\<close> may reject as well.
\<close>

record http_response =
  http_status :: nat
  json :: "error + base_response"

datatype fetch_result = Rejects error | Resolves http_response

datatype request = Import string | Query "string list" | Courier_list

datatype action = Fetch request | Sleep nat

subsection \<open>The runtime and the world\<close>

text \<open>
  The built-ins whose result is fixed by the platform and not by this program are fields of
  a runtime: Unicode upper-casing, the parsing of date strings (implementation-defined
  outside the ISO format), the local-time calendar, the remote gateway (its reply to a
  request is a function of everything the client has done so far, the request included),
  the clock and the UUID source.
\<close>

record runtime =
  toUpperCase :: "string \<Rightarrow> string"
  Date_parse :: "string \<Rightarrow> date"
  getFullYear :: "int \<Rightarrow> int"
  getMonth :: "int \<Rightarrow> nat"
  fetch :: "action list \<Rightarrow> fetch_result"
  randomUUID :: "nat \<Rightarrow> string"
  Date_now :: "nat \<Rightarrow> int"

text \<open>
  The world records what the program has done to its environment: the requests and waits
  in the order they happened, and how many UUIDs and clock readings it has drawn.
\<close>

record world =
  trace :: "action list"
  uuids_drawn :: nat
  clock_reads :: nat

section \<open>Status mapping\<close>

definition statusMap :: "(string \<times> delivery_status) list" where
  "statusMap =
    [(''PENDING'', Pending),
     (''NO_FOUND'', Pending),
     (''INFO_RECEIVED'', Info_received),
     (''IN_TRANSIT'', In_transit),
     (''OUT_FOR_DELIVERY'', Out_for_delivery),
     (''DELIVERED'', Delivered),
     (''EXCEPTION'', Exception),
     (''FAILED_ATTEMPT'', Failed_attempt),
     (''EXPIRED'', Expired)]"

text \<open>
  \<^verbatim>\<open>if (!status) return 'pending'\<close>: an absent and an empty string are both
  falsy. The lookup \<^verbatim>\<open>statusMap[...] || 'unknown'\<close> falls back when the key
  is missing; every value of the table is a non-empty string, hence truthy. The names that
  an object literal inherits (\<^verbatim>\<open>constructor\<close>, \<^verbatim>\<open>toString\<close> and the
  like) each contain a lower-case letter, which no upper-case form does, so the lookup
  only ever finds the nine keys.
\<close>

definition mapTrack123Status :: "runtime \<Rightarrow> string option \<Rightarrow> delivery_status" where
  "mapTrack123Status rt raw =
    (case raw of
       None \<Rightarrow> Pending
     | Some s \<Rightarrow>
         if s = [] then Pending
         else (case map_of statusMap (toUpperCase rt s) of
                 Some v \<Rightarrow> v
               | None \<Rightarrow> Unknown))"

section \<open>The Track123 service\<close>

subsection \<open>Decimal rendering of numbers\<close>

definition digit_char :: "nat \<Rightarrow> char" where
  "digit_char d = ''0123456789'' ! d"

fun show_nat :: "nat \<Rightarrow> string" where
  "show_nat n = (if n < 10 then [digit_char n] else show_nat (n div 10) @ [digit_char (n mod 10)])"

declare show_nat.simps [simp del]

definition show_int :: "int \<Rightarrow> string" where
  "show_int i = (if i < 0 then CHR ''-'' # show_nat (nat (- i)) else show_nat (nat i))"

subsection \<open>Effects\<close>

definition new_Date :: "runtime \<Rightarrow> world \<Rightarrow> date \<times> world" where
  "new_Date rt w = (Date (Date_now rt (clock_reads w)), w\<lparr>clock_reads := Suc (clock_reads w)\<rparr>)"

definition crypto_randomUUID :: "runtime \<Rightarrow> world \<Rightarrow> string \<times> world" where
  "crypto_randomUUID rt w = (randomUUID rt (uuids_drawn w), w\<lparr>uuids_drawn := Suc (uuids_drawn w)\<rparr>)"

definition setTimeout :: "nat \<Rightarrow> world \<Rightarrow> world" where
  "setTimeout ms w = w\<lparr>trace := trace w @ [Sleep ms]\<rparr>"

definition ok :: "http_response \<Rightarrow> bool" where
  "ok r \<longleftrightarrow> 200 \<le> http_status r \<and> http_status r \<le> 299"

text \<open>
  \<^verbatim>\<open>request\<close>: the request is sent; a rejected fetch, a status outside 200..299
  and a body that is not JSON each throw.
\<close>

definition request :: "runtime \<Rightarrow> request \<Rightarrow> world \<Rightarrow> (error + base_response) \<times> world" where
  "request rt req w =
    (let w1 = w\<lparr>trace := trace w @ [Fetch req]\<rparr> in
     case fetch rt (trace w1) of
       Rejects e \<Rightarrow> (Inl e, w1)
     | Resolves r \<Rightarrow>
         if \<not> ok r then (Inl (Error (''API request failed: '' @ show_nat (http_status r))), w1)
         else (json r, w1))"

subsection \<open>Creating a tracking\<close>

text \<open>
  \<^verbatim>\<open>createTracking\<close> reads the clock, draws a UUID and fills the defaults with
  \<^verbatim>\<open>||\<close>, for which an empty nickname is as good as none.
\<close>

definition createTracking ::
  "runtime \<Rightarrow> string \<Rightarrow> string option \<Rightarrow> carrier \<Rightarrow> delivery_status option \<Rightarrow>
   tracking_event list option \<Rightarrow> rat option \<Rightarrow> world \<Rightarrow> tracking \<times> world" where
  "createTracking rt number nick car st evs days w =
    (let (now, w1) = new_Date rt w;
         (uuid, w2) = crypto_randomUUID rt w1
     in (\<lparr>tracking_id = uuid,
          trackingNumber = number,
          nickname = (case nick of None \<Rightarrow> number | Some n \<Rightarrow> if n = [] then number else n),
          carrier = car,
          status = (case st of None \<Rightarrow> Pending | Some s \<Rightarrow> s),
          events = (case evs of None \<Rightarrow> [] | Some es \<Rightarrow> es),
          estimatedDelivery = None,
          transitDays = days,
          createdAt = now,
          updatedAt = now\<rparr>, w2))"

definition mapToCarrier :: "local_logistics_info option \<Rightarrow> carrier" where
  "mapToCarrier logistic =
    \<lparr>code = (case logistic of
               None \<Rightarrow> ''unknown''
             | Some l \<Rightarrow> if courierCode l = [] then ''unknown'' else courierCode l),
     name = (case logistic of
               None \<Rightarrow> ''Unknown''
             | Some l \<Rightarrow>
                 if courierNameEN l \<noteq> [] then courierNameEN l
                 else if courierCode l \<noteq> [] then courierCode l
                 else ''Unknown''),
     logo = None,
     trackingUrl = None\<rparr>"

definition mapToEvent :: "runtime \<Rightarrow> tracking_detail \<Rightarrow> tracking_event" where
  "mapToEvent rt evt =
    \<lparr>timestamp = Date_parse rt (eventTime evt),
     location = (case detail_location evt of None \<Rightarrow> [] | Some l \<Rightarrow> l),
     description = eventDetail evt,
     event_status = mapTrack123Status rt (transitSubStatus evt)\<rparr>"

definition mapToTracking :: "runtime \<Rightarrow> tracking_content \<Rightarrow> world \<Rightarrow> tracking \<times> world" where
  "mapToTracking rt d w =
    (let logistic = localLogisticsInfo d;
         car = mapToCarrier logistic;
         st = mapTrack123Status rt (Some (transitStatus d));
         details = (case logistic of
                      None \<Rightarrow> []
                    | Some l \<Rightarrow> (case trackingDetails l of None \<Rightarrow> [] | Some ds \<Rightarrow> ds));
         evs = map (mapToEvent rt) details
     in createTracking rt (trackNo d) (Some (trackNo d)) car (Some st) (Some evs)
          (content_transitDays d) w)"

text \<open>\<^verbatim>\<open>content.map(this.mapToTracking)\<close>, left to right.\<close>

fun mapToTrackings :: "runtime \<Rightarrow> tracking_content list \<Rightarrow> world \<Rightarrow> tracking list \<times> world" where
  "mapToTrackings rt [] w = ([], w)"
| "mapToTrackings rt (d # ds) w =
    (let (t, w1) = mapToTracking rt d w;
         (ts, w2) = mapToTrackings rt ds w1
     in (t # ts, w2))"

subsection \<open>Register, query, instant track\<close>

definition success :: string where
  "success = ''00000''"

definition registerTracking :: "runtime \<Rightarrow> string \<Rightarrow> world \<Rightarrow> (error + unit) \<times> world" where
  "registerTracking rt number w =
    (case request rt (Import number) w of
       (Inl e, w1) \<Rightarrow> (Inl e, w1)
     | (Inr response, w1) \<Rightarrow>
         if response_code response \<noteq> success
         then (Inl (Error (case msg response of
                            None \<Rightarrow> ''Failed to register tracking''
                          | Some m \<Rightarrow> if m = [] then ''Failed to register tracking'' else m)), w1)
         else (Inr (), w1))"

text \<open>\<^verbatim>\<open>response.data?.accepted?.content\<close>\<close>

definition accepted_content :: "base_response \<Rightarrow> tracking_content list option" where
  "accepted_content response =
    (case data response of
       None \<Rightarrow> None
     | Some d \<Rightarrow> (case accepted d of None \<Rightarrow> None | Some a \<Rightarrow> content a))"

definition Track123_getTrackings :: "runtime \<Rightarrow> string list \<Rightarrow> world \<Rightarrow> (error + tracking list) \<times> world" where
  "Track123_getTrackings rt numbers w =
    (case request rt (Query numbers) w of
       (Inl e, w1) \<Rightarrow> (Inl e, w1)
     | (Inr response, w1) \<Rightarrow>
         if response_code response \<noteq> success then (Inr [], w1)
         else (case accepted_content response of
                 None \<Rightarrow> (Inr [], w1)
               | Some cs \<Rightarrow> (let (ts, w2) = mapToTrackings rt cs w1 in (Inr ts, w2))))"

definition NotFoundError :: error where
  "NotFoundError = Error ''Tracking info not found''"

text \<open>
  \<^verbatim>\<open>instantTrack\<close>. An error of the first query propagates. The
  \<^verbatim>\<open>try\<close> block holds the registration, the wait and the second query, so an
  error of any of the three ends the block with \<^verbatim>\<open>trackings\<close> as the first
  query left it.
\<close>

definition instantTrack ::
  "runtime \<Rightarrow> string \<Rightarrow> string option \<Rightarrow> world \<Rightarrow> (error + tracking) \<times> world" where
  "instantTrack rt number nick w =
    (case Track123_getTrackings rt [number] w of
       (Inl e, w1) \<Rightarrow> (Inl e, w1)
     | (Inr first, w1) \<Rightarrow>
         (let (trackings, w5) =
            (if first = [] then
               (case registerTracking rt number w1 of
                  (Inl e, w2) \<Rightarrow> (first, w2)
                | (Inr u, w2) \<Rightarrow>
                    (let w3 = setTimeout 500 w2 in
                     case Track123_getTrackings rt [number] w3 of
                       (Inl e, w4) \<Rightarrow> (first, w4)
                     | (Inr second, w4) \<Rightarrow> (second, w4)))
             else (first, w1))
          in case trackings of
               t # rest \<Rightarrow>
                 (Inr (case nick of
                         None \<Rightarrow> t
                       | Some n \<Rightarrow> if n = [] then t else t\<lparr>nickname := n\<rparr>), w5)
             | [] \<Rightarrow> (Inl NotFoundError, w5)))"

section \<open>The storage service\<close>

subsection \<open>What the storage key holds\<close>

text \<open>
  \<^verbatim>\<open>JSON.stringify\<close> writes a \<^verbatim>\<open>Date\<close> through
  \<^verbatim>\<open>toJSON\<close>: the ISO-8601 text of a valid time value, \<^verbatim>\<open>null\<close>
  for an invalid date. A property whose value is \<^verbatim>\<open>undefined\<close> is left out.
  The ISO text of the time value \<open>n\<close> is \<open>Iso n\<close>; \<^verbatim>\<open>new Date\<close> of it is
  the date with time value \<open>n\<close>, and \<^verbatim>\<open>new Date(null)\<close> is the epoch.
\<close>

datatype json_date = Null | Iso int

record json_event =
  json_timestamp :: json_date
  json_location :: string
  json_description :: string
  json_event_status :: delivery_status

record json_tracking =
  json_id :: string
  json_trackingNumber :: string
  json_nickname :: string
  json_carrier :: carrier
  json_status :: delivery_status
  json_events :: "json_event list"
  json_estimatedDelivery :: "json_date option"
  json_transitDays :: "rat option"
  json_createdAt :: json_date
  json_updatedAt :: json_date

text \<open>
  The text under the storage key is kept up to what \<^verbatim>\<open>JSON.parse\<close> makes of
  it: a text that does not parse, or the array of objects that
  \<^verbatim>\<open>JSON.stringify\<close> wrote for a \<^verbatim>\<open>Tracking[]\<close>. The key may also
  be unset. Other JSON documents are outside this model.
\<close>

datatype item = Unparsable string | Parsable "json_tracking list"

type_synonym local_storage = "item option"

definition toJSON :: "date \<Rightarrow> json_date" where
  "toJSON d = (case d of Invalid_Date \<Rightarrow> Null | Date n \<Rightarrow> Iso n)"

definition Date_of :: "json_date \<Rightarrow> date" where
  "Date_of j = (case j of Null \<Rightarrow> Date 0 | Iso n \<Rightarrow> Date n)"

definition stringify_event :: "tracking_event \<Rightarrow> json_event" where
  "stringify_event e =
    \<lparr>json_timestamp = toJSON (timestamp e),
     json_location = location e,
     json_description = description e,
     json_event_status = event_status e\<rparr>"

definition stringify_tracking :: "tracking \<Rightarrow> json_tracking" where
  "stringify_tracking t =
    \<lparr>json_id = tracking_id t,
     json_trackingNumber = trackingNumber t,
     json_nickname = nickname t,
     json_carrier = carrier t,
     json_status = status t,
     json_events = map stringify_event (events t),
     json_estimatedDelivery = map_option toJSON (estimatedDelivery t),
     json_transitDays = transitDays t,
     json_createdAt = toJSON (createdAt t),
     json_updatedAt = toJSON (updatedAt t)\<rparr>"

definition JSON_stringify :: "tracking list \<Rightarrow> item" where
  "JSON_stringify trackings = Parsable (map stringify_tracking trackings)"

definition JSON_parse :: "item \<Rightarrow> error + json_tracking list" where
  "JSON_parse text = (case text of
       Unparsable s \<Rightarrow> Inl (Error ''SyntaxError'')
     | Parsable docs \<Rightarrow> Inr docs)"

subsection \<open>LocalStorageService\<close>

definition rehydrateEvent :: "json_event \<Rightarrow> tracking_event" where
  "rehydrateEvent e =
    \<lparr>timestamp = Date_of (json_timestamp e),
     location = json_location e,
     description = json_description e,
     event_status = json_event_status e\<rparr>"

text \<open>
  The object literal that \<^verbatim>\<open>rehydrateTracking\<close> returns lists nine properties;
  \<^verbatim>\<open>transitDays\<close> is not among them, so it is \<^verbatim>\<open>undefined\<close> in the
  result. A \<^verbatim>\<open>null\<close> \<^verbatim>\<open>estimatedDelivery\<close> is falsy.
\<close>

definition rehydrateTracking :: "json_tracking \<Rightarrow> tracking" where
  "rehydrateTracking d =
    \<lparr>tracking_id = json_id d,
     trackingNumber = json_trackingNumber d,
     nickname = json_nickname d,
     carrier = json_carrier d,
     status = json_status d,
     events = map rehydrateEvent (json_events d),
     estimatedDelivery = (case json_estimatedDelivery d of
                            None \<Rightarrow> None
                          | Some Null \<Rightarrow> None
                          | Some (Iso n) \<Rightarrow> Some (Date_of (Iso n))),
     transitDays = None,
     createdAt = Date_of (json_createdAt d),
     updatedAt = Date_of (json_updatedAt d)\<rparr>"

text \<open>
  \<^verbatim>\<open>getTrackings\<close>: an unset key and an empty text are falsy; an error thrown
  while parsing or rehydrating is caught.
\<close>

definition getTrackings :: "local_storage \<Rightarrow> tracking list" where
  "getTrackings store =
    (case store of
       None \<Rightarrow> []
     | Some text \<Rightarrow>
         if text = Unparsable [] then []
         else (case JSON_parse text of
                 Inl e \<Rightarrow> []
               | Inr parsed \<Rightarrow> map rehydrateTracking parsed))"

definition persist :: "tracking list \<Rightarrow> local_storage" where
  "persist trackings = Some (JSON_stringify trackings)"

fun findIndex :: "('a \<Rightarrow> bool) \<Rightarrow> 'a list \<Rightarrow> nat option" where
  "findIndex P [] = None"
| "findIndex P (x # xs) = (if P x then Some 0 else map_option Suc (findIndex P xs))"

definition saveTracking :: "tracking \<Rightarrow> local_storage \<Rightarrow> local_storage" where
  "saveTracking t store =
    (let trackings = getTrackings store in
     case findIndex (\<lambda>x. trackingNumber x = trackingNumber t) trackings of
       Some existingIndex \<Rightarrow> persist (trackings[existingIndex := t])
     | None \<Rightarrow> persist (trackings @ [t]))"

section \<open>The analytics service\<close>

subsection \<open>Numbers\<close>

text \<open>
  A \<^verbatim>\<open>number\<close> is an IEEE 754 binary64. The result of a sum, a quotient or a
  product is the exact result rounded to the nearest value with a 53-bit significand, ties
  to even: \<open>binary64\<close> of the exact result. A count of trackings is at most the length
  of an array and is kept as a natural number, which is exact. Overflow to infinity and
  the subnormal range are not modelled.
\<close>

definition pow2 :: "int \<Rightarrow> rat" where
  "pow2 e = (if 0 \<le> e then 2 ^ nat e else 1 / 2 ^ nat (- e))"

definition ilog2 :: "rat \<Rightarrow> int" where
  "ilog2 x =
    (let (p, q) = quotient_of x;
         e = bitlen p - bitlen q
     in if pow2 e \<le> x then e else e - 1)"

definition round_ties_even :: "rat \<Rightarrow> int" where
  "round_ties_even x =
    (let f = \<lfloor>x\<rfloor>; r = x - of_int f
     in if r < 1 / 2 then f
        else if 1 / 2 < r then f + 1
        else if even f then f else f + 1)"

definition binary64 :: "rat \<Rightarrow> rat" where
  "binary64 x =
    (if x = 0 then 0
     else (let a = \<bar>x\<bar>; u = pow2 (ilog2 a - 52)
           in sgn x * of_int (round_ties_even (a / u)) * u))"

text \<open>\<^verbatim>\<open>Math.round\<close>: the nearest integer, a tie going up.\<close>

definition Math_round :: "rat \<Rightarrow> int" where
  "Math_round x = \<lfloor>x + 1 / 2\<rfloor>"

subsection \<open>Monthly statistics\<close>

definition padStart2 :: "string \<Rightarrow> string" where
  "padStart2 s = replicate (2 - length s) CHR ''0'' @ s"

text \<open>
  \<^verbatim>\<open>formatMonth\<close>: the calendar fields of an invalid date are NaN, and so is
  NaN + 1.
\<close>

definition formatMonth :: "runtime \<Rightarrow> date \<Rightarrow> string" where
  "formatMonth rt d =
    (case d of
       Invalid_Date \<Rightarrow> ''NaN-NaN''
     | Date n \<Rightarrow> show_int (getFullYear rt n) @ ''-'' @ padStart2 (show_nat (getMonth rt n + 1)))"

definition getCurrentMonth :: "runtime \<Rightarrow> world \<Rightarrow> string \<times> world" where
  "getCurrentMonth rt w = (let (now, w1) = new_Date rt w in (formatMonth rt now, w1))"

text \<open>
  The first argument of the analytics functions is the snapshot that
  \<^verbatim>\<open>this.storage.getTrackings()\<close> returned. In
  \<^verbatim>\<open>month || this.getCurrentMonth()\<close> the clock is read only when no month, or an
  empty one, was given.
\<close>

definition getMonthlyStats ::
  "runtime \<Rightarrow> tracking list \<Rightarrow> string option \<Rightarrow> world \<Rightarrow> monthly_stats \<times> world" where
  "getMonthlyStats rt trackings month_arg w =
    (let (targetMonth, w1) =
           (case month_arg of
              None \<Rightarrow> getCurrentMonth rt w
            | Some m \<Rightarrow> if m = [] then getCurrentMonth rt w else (m, w));
         monthlyTrackings = filter (\<lambda>t. formatMonth rt (createdAt t) = targetMonth) trackings
     in (\<lparr>month = targetMonth,
          totalPackages = length monthlyTrackings,
          delivered = length (filter (\<lambda>t. status t = Delivered) monthlyTrackings),
          inTransit = length (filter (\<lambda>t. status t \<in> set [In_transit, Out_for_delivery])
                                monthlyTrackings)\<rparr>, w1))"

subsection \<open>Courier distribution\<close>

record courier_counts =
  counts_name :: string
  counts_count :: nat
  totalTransitDays :: rat
  deliveredCount :: nat

text \<open>
  A \<^verbatim>\<open>Map\<close> iterates in the order of first insertion: an association list in which
  \<^verbatim>\<open>set\<close> replaces in place or appends.
\<close>

fun Map_set :: "'k \<Rightarrow> 'v \<Rightarrow> ('k \<times> 'v) list \<Rightarrow> ('k \<times> 'v) list" where
  "Map_set k v [] = [(k, v)]"
| "Map_set k v (p # ps) = (if fst p = k then (k, v) # ps else p # Map_set k v ps)"

definition Map_get :: "('k \<times> 'v) list \<Rightarrow> 'k \<Rightarrow> 'v option" where
  "Map_get m k = map_of m k"

text \<open>\<^verbatim>\<open>tracking.transitDays || 0\<close>\<close>

definition transitDays_or_0 :: "tracking \<Rightarrow> rat" where
  "transitDays_or_0 t = (case transitDays t of None \<Rightarrow> 0 | Some d \<Rightarrow> d)"

definition qualifies :: "tracking \<Rightarrow> bool" where
  "qualifies t \<longleftrightarrow> status t = Delivered \<and> 0 < transitDays_or_0 t"

text \<open>One round of the loop over the snapshot.\<close>

definition count_tracking ::
  "tracking \<Rightarrow> (string \<times> courier_counts) list \<Rightarrow> (string \<times> courier_counts) list" where
  "count_tracking t counts =
    (case Map_get counts (code (carrier t)) of
       Some existing \<Rightarrow>
         Map_set (code (carrier t))
           (existing\<lparr>counts_count := counts_count existing + 1,
                     totalTransitDays :=
                       (if qualifies t
                        then binary64 (totalTransitDays existing + transitDays_or_0 t)
                        else totalTransitDays existing),
                     deliveredCount :=
                       (if qualifies t then deliveredCount existing + 1
                        else deliveredCount existing)\<rparr>) counts
     | None \<Rightarrow>
         Map_set (code (carrier t))
           \<lparr>counts_name = name (carrier t),
            counts_count = 1,
            totalTransitDays = (if qualifies t then transitDays_or_0 t else 0),
            deliveredCount = (if qualifies t then 1 else 0)\<rparr> counts)"

definition distribution_entry :: "nat \<Rightarrow> string \<times> courier_counts \<Rightarrow> courier_distribution" where
  "distribution_entry total_count entry =
    (case entry of (c, d) \<Rightarrow>
      \<lparr>carrierCode = c,
       carrierName = counts_name d,
       count = counts_count d,
       percentage =
         Math_round (binary64 (binary64 (of_nat (counts_count d) / of_nat total_count) * 100)),
       avgTransitDays =
         (if 0 < deliveredCount d
          then Some (Math_round (binary64 (totalTransitDays d / of_nat (deliveredCount d))))
          else None)\<rparr>)"

definition getCourierDistribution :: "tracking list \<Rightarrow> courier_distribution list" where
  "getCourierDistribution trackings =
    (if length trackings = 0 then []
     else (let counts = fold count_tracking trackings [];
               total_count = length trackings
           in map (distribution_entry total_count) counts))"

section \<open>The properties in the words of the specification\<close>

text \<open>
  The month key \<open>YYYY-MM\<close> of a calendar year and a month counted from 1, and what it
  means for a tracking to have been created in that month of the local calendar.
\<close>

definition month_key :: "int \<Rightarrow> nat \<Rightarrow> string" where
  "month_key y m = show_int y @ ''-'' @ padStart2 (show_nat m)"

definition created_in :: "runtime \<Rightarrow> int \<Rightarrow> nat \<Rightarrow> tracking \<Rightarrow> bool" where
  "created_in rt y m t =
    (case createdAt t of
       Invalid_Date \<Rightarrow> False
     | Date n \<Rightarrow> getFullYear rt n = y \<and> getMonth rt n + 1 = m)"

text \<open>
  The distribution as the specification words it: the carrier codes in the order of their
  first occurrence; per code the members, the share \<open>groupCount / totalCount \<times> 100\<close>
  of the total, and the mean over the members that are delivered with positive transit
  days. All of it is exact arithmetic on rationals; \<open>round_half_up\<close> is rounding to the
  nearest integer, and \<open>halfway\<close> says that a value lies in the middle between two
  integers.
\<close>

fun first_occurrences :: "'a list \<Rightarrow> 'a list" where
  "first_occurrences [] = []"
| "first_occurrences (x # xs) = x # filter (\<lambda>y. y \<noteq> x) (first_occurrences xs)"

definition members :: "string \<Rightarrow> tracking list \<Rightarrow> tracking list" where
  "members c snapshot = filter (\<lambda>t. code (carrier t) = c) snapshot"

definition qualifying :: "string \<Rightarrow> tracking list \<Rightarrow> tracking list" where
  "qualifying c snapshot = filter qualifies (members c snapshot)"

definition round_half_up :: "rat \<Rightarrow> int" where
  "round_half_up x = \<lfloor>x + 1 / 2\<rfloor>"

definition halfway :: "rat \<Rightarrow> bool" where
  "halfway x \<longleftrightarrow> x - of_int \<lfloor>x\<rfloor> = 1 / 2"

definition share :: "string \<Rightarrow> tracking list \<Rightarrow> rat" where
  "share c snapshot = of_nat (length (members c snapshot)) / of_nat (length snapshot) * 100"

definition mean_transitDays :: "string \<Rightarrow> tracking list \<Rightarrow> rat" where
  "mean_transitDays c snapshot =
    sum_list (map transitDays_or_0 (qualifying c snapshot)) /
    of_nat (length (qualifying c snapshot))"

definition whole :: "rat \<Rightarrow> bool" where
  "whole x \<longleftrightarrow> of_int \<lfloor>x\<rfloor> = x"

text \<open>A tracking all of whose dates are valid.\<close>

definition valid :: "date \<Rightarrow> bool" where
  "valid d \<longleftrightarrow> d \<noteq> Invalid_Date"

definition valid_dates :: "tracking \<Rightarrow> bool" where
  "valid_dates t \<longleftrightarrow>
     valid (createdAt t) \<and> valid (updatedAt t) \<and>
     list_all (\<lambda>e. valid (timestamp e)) (events t) \<and>
     (case estimatedDelivery t of None \<Rightarrow> True | Some d \<Rightarrow> valid d)"

text \<open>
  The table that the loop of \<open>getCourierDistribution\<close> holds after it has gone through
  the trackings \<open>seen\<close>: one row per carrier code, in the order of first occurrence.
  The transit days of a group are added up in the order of the snapshot, each sum rounded;
  the first member of a group sets the total without a sum.
\<close>

definition accumulate :: "rat \<Rightarrow> tracking \<Rightarrow> rat" where
  "accumulate s t = (if qualifies t then binary64 (s + transitDays_or_0 t) else s)"

definition transit_total :: "tracking list \<Rightarrow> rat" where
  "transit_total ms =
    (case ms of
       [] \<Rightarrow> 0
     | t # rest \<Rightarrow> foldl accumulate (if qualifies t then transitDays_or_0 t else 0) rest)"

definition summary :: "tracking list \<Rightarrow> string \<Rightarrow> courier_counts" where
  "summary seen c =
    \<lparr>counts_name = name (carrier (hd (members c seen))),
     counts_count = length (members c seen),
     totalTransitDays = transit_total (members c seen),
     deliveredCount = length (qualifying c seen)\<rparr>"

definition counts_after :: "tracking list \<Rightarrow> (string \<times> courier_counts) list" where
  "counts_after seen =
    map (\<lambda>c. (c, summary seen c)) (first_occurrences (map (\<lambda>t. code (carrier t)) seen))"

section \<open>A reference runtime\<close>

text \<open>
  A concrete platform on which the functions can be run: ASCII upper-casing, the proleptic
  Gregorian calendar in UTC, a date parser for the gateway's
  \<^verbatim>\<open>YYYY-MM-DD HH:MM:SS\<close>, a counter for UUIDs and a clock that ticks once a
  second. The gateway is a parameter.
\<close>

definition upper_char :: "char \<Rightarrow> char" where
  "upper_char c =
    (case map_of (zip ''abcdefghijklmnopqrstuvwxyz'' ''ABCDEFGHIJKLMNOPQRSTUVWXYZ'') c of
       Some u \<Rightarrow> u
     | None \<Rightarrow> c)"

definition ascii_toUpperCase :: "string \<Rightarrow> string" where
  "ascii_toUpperCase s = map upper_char s"

definition civil_year_month :: "int \<Rightarrow> int \<times> nat" where
  "civil_year_month days =
    (let z = days + 719468;
         era = z div 146097;
         doe = z mod 146097;
         yoe = (doe - doe div 1460 + doe div 36524 - doe div 146096) div 365;
         doy = doe - (365 * yoe + yoe div 4 - yoe div 100);
         mp = (5 * doy + 2) div 153;
         m = (if mp < 10 then mp + 3 else mp - 9);
         y = yoe + era * 400
     in (if m \<le> 2 then y + 1 else y, nat m))"

definition utc_getFullYear :: "int \<Rightarrow> int" where
  "utc_getFullYear ms = fst (civil_year_month (ms div 86400000))"

definition utc_getMonth :: "int \<Rightarrow> nat" where
  "utc_getMonth ms = snd (civil_year_month (ms div 86400000)) - 1"

definition days_from_civil :: "int \<Rightarrow> int \<Rightarrow> int \<Rightarrow> int" where
  "days_from_civil y m d =
    (let y1 = (if m \<le> 2 then y - 1 else y);
         era = y1 div 400;
         yoe = y1 mod 400;
         doy = (153 * (if 2 < m then m - 3 else m + 9) + 2) div 5 + d - 1;
         doe = yoe * 365 + yoe div 4 - yoe div 100 + doy
     in era * 146097 + doe - 719468)"

definition digit_value :: "char \<Rightarrow> nat option" where
  "digit_value c = map_of (zip ''0123456789'' [0 ..< 10]) c"

fun digits_value :: "nat \<Rightarrow> string \<Rightarrow> nat option" where
  "digits_value acc [] = Some acc"
| "digits_value acc (c # cs) =
    (case digit_value c of None \<Rightarrow> None | Some d \<Rightarrow> digits_value (10 * acc + d) cs)"

definition utc_Date_parse :: "string \<Rightarrow> date" where
  "utc_Date_parse s =
    (if length s = 19 \<and> s ! 4 = CHR ''-'' \<and> s ! 7 = CHR ''-'' \<and> s ! 10 = CHR '' '' \<and>
        s ! 13 = CHR '':'' \<and> s ! 16 = CHR '':''
     then (case (digits_value 0 (take 4 s), digits_value 0 (take 2 (drop 5 s)),
                 digits_value 0 (take 2 (drop 8 s)), digits_value 0 (take 2 (drop 11 s)),
                 digits_value 0 (take 2 (drop 14 s)), digits_value 0 (take 2 (drop 17 s))) of
             (Some y, Some mo, Some d, Some h, Some mi, Some sec) \<Rightarrow>
               if 1 \<le> mo \<and> mo \<le> 12 \<and> 1 \<le> d \<and> d \<le> 31 \<and> h < 24 \<and> mi < 60 \<and> sec < 60
               then Date ((((days_from_civil (int y) (int mo) (int d) * 24 + int h) * 60
                            + int mi) * 60 + int sec) * 1000)
               else Invalid_Date
           | _ \<Rightarrow> Invalid_Date)
     else Invalid_Date)"

definition reference_runtime :: "(action list \<Rightarrow> fetch_result) \<Rightarrow> runtime" where
  "reference_runtime gateway =
    \<lparr>toUpperCase = ascii_toUpperCase,
     Date_parse = utc_Date_parse,
     getFullYear = utc_getFullYear,
     getMonth = utc_getMonth,
     fetch = gateway,
     randomUUID = (\<lambda>k. ''uuid-'' @ show_nat k),
     Date_now = (\<lambda>k. 1767225600000 + 1000 * int k)\<rparr>"

definition offline :: "action list \<Rightarrow> fetch_result" where
  "offline history = Rejects (Error ''Failed to fetch'')"

definition initial_world :: world where
  "initial_world = \<lparr>trace = [], uuids_drawn = 0, clock_reads = 0\<rparr>"

text \<open>
  A gateway that answers from a script: the k-th request of a session gets the k-th reply,
  and the connection fails once the script is used up.
\<close>

definition is_fetch :: "action \<Rightarrow> bool" where
  "is_fetch a = (case a of Fetch r \<Rightarrow> True | Sleep ms \<Rightarrow> False)"

definition scripted :: "fetch_result list \<Rightarrow> action list \<Rightarrow> fetch_result" where
  "scripted script history =
    (let k = length (filter is_fetch history)
     in if 0 < k \<and> k \<le> length script then script ! (k - 1)
        else Rejects (Error ''Failed to fetch''))"

definition reply :: "string \<Rightarrow> string option \<Rightarrow> tracking_content list option \<Rightarrow> fetch_result" where
  "reply c m cs =
    Resolves \<lparr>http_status = 200,
              json = Inr \<lparr>response_code = c, msg = m,
                          data = Some \<lparr>accepted = Some \<lparr>content = cs\<rparr>\<rparr>\<rparr>\<rparr>"

definition sample_content :: tracking_content where
  "sample_content =
    \<lparr>trackNo = ''TH0123456789'',
     transitStatus = ''IN_TRANSIT'',
     content_transitDays = Some 3,
     localLogisticsInfo =
       Some \<lparr>courierCode = ''kerry'',
             courierNameEN = ''Kerry Express'',
             trackingDetails =
               Some [\<lparr>eventTime = ''2026-01-22 07:45:24'',
                      eventDetail = ''Arrived at sorting hub'',
                      detail_location = Some ''Bangkok'',
                      transitSubStatus = Some ''IN_TRANSIT''\<rparr>,
                     \<lparr>eventTime = ''2026-01-23 09:10:00'',
                      eventDetail = ''Departed from sorting hub'',
                      detail_location = None,
                      transitSubStatus = Some ''IN_TRANSIT_01''\<rparr>]\<rparr>\<rparr>"

text \<open>
  Four sessions with the gateway: the number is known; it stays unknown after a successful
  registration; the registration is refused; the number is known once registered.
\<close>

definition known_runtime :: runtime where
  "known_runtime = reference_runtime (scripted [reply success None (Some [sample_content])])"

definition unknown_runtime :: runtime where
  "unknown_runtime =
    reference_runtime (scripted [reply success None (Some []), reply success None None,
                                 reply success None (Some [])])"

definition refusing_runtime :: runtime where
  "refusing_runtime =
    reference_runtime (scripted [reply success None (Some []),
                                 reply ''A0400'' (Some ''Invalid tracking number'') None,
                                 reply success None (Some [sample_content])])"

definition registering_runtime :: runtime where
  "registering_runtime =
    reference_runtime (scripted [reply ''A0404'' (Some ''No data'') None,
                                 reply success None None,
                                 reply success None (Some [sample_content])])"

text \<open>A tracking as the resolver hands it to the storage service.\<close>

definition sample_tracking :: tracking where
  "sample_tracking =
    \<lparr>tracking_id = ''uuid-0'',
     trackingNumber = ''TH0123456789'',
     nickname = ''Shoes'',
     carrier = \<lparr>code = ''kerry'', name = ''Kerry Express'', logo = None, trackingUrl = None\<rparr>,
     status = Delivered,
     events = [\<lparr>timestamp = Date 1769067924000, location = ''Bangkok'',
                description = ''Arrived at sorting hub'', event_status = In_transit\<rparr>],
     estimatedDelivery = None,
     transitDays = Some 2,
     createdAt = Date 1767225600000,
     updatedAt = Date 1767225600000\<rparr>"

text \<open>Four trackings created in January 2026, one per status of the example.\<close>

definition january_snapshot :: "tracking list" where
  "january_snapshot =
    [sample_tracking,
     sample_tracking\<lparr>trackingNumber := ''TH0000000002'', status := In_transit,
                     createdAt := Date 1768000000000\<rparr>,
     sample_tracking\<lparr>trackingNumber := ''TH0000000003'', status := Out_for_delivery,
                     createdAt := Date 1769067924000\<rparr>,
     sample_tracking\<lparr>trackingNumber := ''TH0000000004'', status := Pending,
                     createdAt := Date 1769903999999\<rparr>]"

text \<open>The three trackings of the distribution example.\<close>

definition parcel_a1 :: tracking where
  "parcel_a1 = sample_tracking"

definition parcel_a2 :: tracking where
  "parcel_a2 = sample_tracking\<lparr>tracking_id := ''uuid-1'', trackingNumber := ''TH0000000002'',
                                  transitDays := Some 4\<rparr>"

definition parcel_b :: tracking where
  "parcel_b =
    sample_tracking\<lparr>tracking_id := ''uuid-2'', trackingNumber := ''TH0000000003'',
                     carrier := \<lparr>code = ''flash'', name = ''Flash Express'', logo = None,
                                 trackingUrl = None\<rparr>,
                     status := In_transit, transitDays := Some 0\<rparr>"

text \<open>
  Forty trackings with forty tracking numbers: twenty-three of the first carrier,
  seventeen of the second.
\<close>

definition fleet :: "tracking list" where
  "fleet =
    map (\<lambda>k. parcel_a1\<lparr>trackingNumber := show_nat k\<rparr>) [0 ..< 23] @
    map (\<lambda>k. parcel_b\<lparr>trackingNumber := show_nat k\<rparr>) [23 ..< 40]"

section \<open>Status mapping: properties\<close>

lemma upper_in_transit: "ascii_toUpperCase ''In_Transit'' = ''IN_TRANSIT''"
  by (simp add: ascii_toUpperCase_def upper_char_def)

lemma upper_garbage: "ascii_toUpperCase ''garbage'' = ''GARBAGE''"
  by (simp add: ascii_toUpperCase_def upper_char_def)

text \<open>
  Claim C4. The status normalizer is total: it returns \<open>Pending\<close> for an absent and for an
  empty input; for a non-empty input whose upper-case form is one of the nine keys of the
  table it returns the value listed for that key, whatever the case of the input; for every
  other non-empty input it returns \<open>Unknown\<close>. The function has no error result.
\<close>

theorem mapTrack123Status_table:
  "mapTrack123Status rt None = Pending \<and>
   mapTrack123Status rt (Some []) = Pending \<and>
   (s \<noteq> [] \<longrightarrow>
     (toUpperCase rt s = ''PENDING'' \<longrightarrow> mapTrack123Status rt (Some s) = Pending) \<and>
     (toUpperCase rt s = ''NO_FOUND'' \<longrightarrow> mapTrack123Status rt (Some s) = Pending) \<and>
     (toUpperCase rt s = ''INFO_RECEIVED'' \<longrightarrow> mapTrack123Status rt (Some s) = Info_received) \<and>
     (toUpperCase rt s = ''IN_TRANSIT'' \<longrightarrow> mapTrack123Status rt (Some s) = In_transit) \<and>
     (toUpperCase rt s = ''OUT_FOR_DELIVERY'' \<longrightarrow>
        mapTrack123Status rt (Some s) = Out_for_delivery) \<and>
     (toUpperCase rt s = ''DELIVERED'' \<longrightarrow> mapTrack123Status rt (Some s) = Delivered) \<and>
     (toUpperCase rt s = ''EXCEPTION'' \<longrightarrow> mapTrack123Status rt (Some s) = Exception) \<and>
     (toUpperCase rt s = ''FAILED_ATTEMPT'' \<longrightarrow> mapTrack123Status rt (Some s) = Failed_attempt) \<and>
     (toUpperCase rt s = ''EXPIRED'' \<longrightarrow> mapTrack123Status rt (Some s) = Expired) \<and>
     (toUpperCase rt s \<notin> set [''PENDING'', ''NO_FOUND'', ''INFO_RECEIVED'', ''IN_TRANSIT'',
                               ''OUT_FOR_DELIVERY'', ''DELIVERED'', ''EXCEPTION'',
                               ''FAILED_ATTEMPT'', ''EXPIRED''] \<longrightarrow>
        mapTrack123Status rt (Some s) = Unknown))"
  by (simp add: mapTrack123Status_def statusMap_def)

theorem mapTrack123Status_table_witness:
  "''In_Transit'' \<noteq> [] \<and>
   toUpperCase (reference_runtime offline) ''In_Transit'' = ''IN_TRANSIT'' \<and>
   mapTrack123Status (reference_runtime offline) (Some ''In_Transit'') = In_transit \<and>
   toUpperCase (reference_runtime offline) ''garbage'' \<notin>
     set [''PENDING'', ''NO_FOUND'', ''INFO_RECEIVED'', ''IN_TRANSIT'', ''OUT_FOR_DELIVERY'',
          ''DELIVERED'', ''EXCEPTION'', ''FAILED_ATTEMPT'', ''EXPIRED''] \<and>
   mapTrack123Status (reference_runtime offline) (Some ''garbage'') = Unknown"
proof -
  have up1: "toUpperCase (reference_runtime offline) ''In_Transit'' = ''IN_TRANSIT''"
    by (simp add: reference_runtime_def upper_in_transit)
  have up2: "toUpperCase (reference_runtime offline) ''garbage'' = ''GARBAGE''"
    by (simp add: reference_runtime_def upper_garbage)
  have a: "mapTrack123Status (reference_runtime offline) (Some ''In_Transit'') = In_transit"
    using mapTrack123Status_table [of "reference_runtime offline" "''In_Transit''"] up1
    by simp
  have b: "mapTrack123Status (reference_runtime offline) (Some ''garbage'') = Unknown"
    using mapTrack123Status_table [of "reference_runtime offline" "''garbage''"] up2
    by simp
  from a b up1 up2 show ?thesis by simp
qed

section \<open>The resolver: properties\<close>

subsection \<open>What each call adds to the trace\<close>

lemma request_trace: "trace (snd (request rt req w)) = trace w @ [Fetch req]"
  by (simp add: request_def Let_def split: fetch_result.split)

lemma createTracking_trace: "trace (snd (createTracking rt n k c s e d w)) = trace w"
  by (simp add: createTracking_def new_Date_def crypto_randomUUID_def)

lemma mapToTracking_trace: "trace (snd (mapToTracking rt d w)) = trace w"
  by (simp add: mapToTracking_def Let_def createTracking_trace)

lemma mapToTrackings_trace: "trace (snd (mapToTrackings rt ds w)) = trace w"
proof (induction ds arbitrary: w)
  case Nil
  show ?case by simp
next
  case (Cons d ds)
  have "trace (snd (mapToTrackings rt ds (snd (mapToTracking rt d w)))) = trace w"
    using Cons.IH [of "snd (mapToTracking rt d w)"] by (simp add: mapToTracking_trace)
  then show ?case by (simp add: split_beta Let_def)
qed

lemma mapToTrackings_Cons:
  "fst (mapToTrackings rt (d # ds) w) =
     fst (mapToTracking rt d w) # fst (mapToTrackings rt ds (snd (mapToTracking rt d w)))"
  by (simp add: split_beta Let_def)

lemma Track123_getTrackings_trace:
  "trace (snd (Track123_getTrackings rt numbers w)) = trace w @ [Fetch (Query numbers)]"
proof -
  obtain r w1 where req: "request rt (Query numbers) w = (r, w1)"
    by (cases "request rt (Query numbers) w")
  then have tr: "trace w1 = trace w @ [Fetch (Query numbers)]"
    using request_trace [of rt "Query numbers" w] by simp
  show ?thesis
    using req tr
    by (simp add: Track123_getTrackings_def split_beta mapToTrackings_trace
          split: sum.split option.split)
qed

lemma registerTracking_trace:
  "trace (snd (registerTracking rt number w)) = trace w @ [Fetch (Import number)]"
proof -
  obtain r w1 where req: "request rt (Import number) w = (r, w1)"
    by (cases "request rt (Import number) w")
  then have tr: "trace w1 = trace w @ [Fetch (Import number)]"
    using request_trace [of rt "Import number" w] by simp
  show ?thesis
    using req tr by (simp add: registerTracking_def split: sum.split)
qed

lemma Track123_getTrackings_found:
  assumes "request rt (Query numbers) w = (Inr response, w1)"
      and "response_code response = success"
      and "accepted_content response = Some (c # cs)"
  shows "Track123_getTrackings rt numbers w =
           (Inr (fst (mapToTracking rt c w1) #
                 fst (mapToTrackings rt cs (snd (mapToTracking rt c w1)))),
            snd (mapToTrackings rt (c # cs) w1))"
  using assms by (simp add: Track123_getTrackings_def split_beta Let_def)

lemma mapToEvent_fun:
  "mapToEvent rt =
     (\<lambda>evt. \<lparr>timestamp = Date_parse rt (eventTime evt),
              location = (case detail_location evt of None \<Rightarrow> [] | Some l \<Rightarrow> l),
              description = eventDetail evt,
              event_status = mapTrack123Status rt (transitSubStatus evt)\<rparr>)"
  by (rule ext) (simp add: mapToEvent_def)

lemma mapToTracking_value:
  "fst (mapToTracking rt d w) =
     \<lparr>tracking_id = randomUUID rt (uuids_drawn w),
      trackingNumber = trackNo d,
      nickname = trackNo d,
      carrier =
        \<lparr>code = (case localLogisticsInfo d of
                   None \<Rightarrow> ''unknown''
                 | Some l \<Rightarrow> if courierCode l = [] then ''unknown'' else courierCode l),
         name = (case localLogisticsInfo d of
                   None \<Rightarrow> ''Unknown''
                 | Some l \<Rightarrow>
                     if courierNameEN l \<noteq> [] then courierNameEN l
                     else if courierCode l \<noteq> [] then courierCode l
                     else ''Unknown''),
         logo = None,
         trackingUrl = None\<rparr>,
      status = mapTrack123Status rt (Some (transitStatus d)),
      events =
        map (\<lambda>evt. \<lparr>timestamp = Date_parse rt (eventTime evt),
                     location = (case detail_location evt of None \<Rightarrow> [] | Some l \<Rightarrow> l),
                     description = eventDetail evt,
                     event_status = mapTrack123Status rt (transitSubStatus evt)\<rparr>)
          (case localLogisticsInfo d of
             None \<Rightarrow> []
           | Some l \<Rightarrow> (case trackingDetails l of None \<Rightarrow> [] | Some ds \<Rightarrow> ds)),
      estimatedDelivery = None,
      transitDays = content_transitDays d,
      createdAt = Date (Date_now rt (clock_reads w)),
      updatedAt = Date (Date_now rt (clock_reads w))\<rparr>"
  by (simp add: mapToTracking_def createTracking_def mapToCarrier_def mapToEvent_fun
        new_Date_def crypto_randomUUID_def Let_def)

subsection \<open>A number the gateway knows\<close>

text \<open>
  Claim C7. When the first query is answered with the success code and one or more
  matches, \<open>instantTrack\<close> returns the first match normalized into a tracking: the
  tracking number and the nickname are the match's number; the carrier code is the
  courier code, or \<^verbatim>\<open>unknown\<close> when it is missing or empty; the carrier name is
  the courier's English name, else its code, else \<^verbatim>\<open>Unknown\<close>; the status is the
  normalized transit status; each tracking detail becomes an event with the parsed event
  time, the location or the empty string, the detail text and the normalized sub-status;
  the transit days are the match's; the id is a fresh UUID and both dates are the time of
  the mapping. A nickname that was supplied replaces the nickname; an empty one counts as
  none, as in \<open>createTracking\<close>. The query is the only request made, so the number is
  not registered.
\<close>

theorem instantTrack_known:
  assumes "request rt (Query [number]) w = (Inr response, w1)"
      and "response_code response = success"
      and "accepted_content response = Some (c # cs)"
  shows "(nick = None \<or> nick = Some [] \<longrightarrow>
            fst (instantTrack rt number nick w) = Inr (fst (mapToTracking rt c w1))) \<and>
         (\<forall>n. nick = Some n \<and> n \<noteq> [] \<longrightarrow>
            fst (instantTrack rt number nick w) =
              Inr ((fst (mapToTracking rt c w1))\<lparr>nickname := n\<rparr>)) \<and>
         fst (mapToTracking rt c w1) =
           \<lparr>tracking_id = randomUUID rt (uuids_drawn w1),
            trackingNumber = trackNo c,
            nickname = trackNo c,
            carrier =
              \<lparr>code = (case localLogisticsInfo c of
                         None \<Rightarrow> ''unknown''
                       | Some l \<Rightarrow> if courierCode l = [] then ''unknown'' else courierCode l),
               name = (case localLogisticsInfo c of
                         None \<Rightarrow> ''Unknown''
                       | Some l \<Rightarrow>
                           if courierNameEN l \<noteq> [] then courierNameEN l
                           else if courierCode l \<noteq> [] then courierCode l
                           else ''Unknown''),
               logo = None,
               trackingUrl = None\<rparr>,
            status = mapTrack123Status rt (Some (transitStatus c)),
            events =
              map (\<lambda>evt. \<lparr>timestamp = Date_parse rt (eventTime evt),
                           location = (case detail_location evt of None \<Rightarrow> [] | Some l \<Rightarrow> l),
                           description = eventDetail evt,
                           event_status = mapTrack123Status rt (transitSubStatus evt)\<rparr>)
                (case localLogisticsInfo c of
                   None \<Rightarrow> []
                 | Some l \<Rightarrow> (case trackingDetails l of None \<Rightarrow> [] | Some ds \<Rightarrow> ds)),
            estimatedDelivery = None,
            transitDays = content_transitDays c,
            createdAt = Date (Date_now rt (clock_reads w1)),
            updatedAt = Date (Date_now rt (clock_reads w1))\<rparr> \<and>
         trace (snd (instantTrack rt number nick w)) = trace w @ [Fetch (Query [number])]"
proof -
  let ?t = "fst (mapToTracking rt c w1)"
  let ?ts = "fst (mapToTrackings rt cs (snd (mapToTracking rt c w1)))"
  let ?w = "snd (mapToTrackings rt (c # cs) w1)"
  have found: "Track123_getTrackings rt [number] w = (Inr (?t # ?ts), ?w)"
    using assms by (rule Track123_getTrackings_found)
  have tr: "trace ?w = trace w @ [Fetch (Query [number])]"
    using Track123_getTrackings_trace [of rt "[number]" w] found by simp
  have res: "instantTrack rt number nick w =
      (Inr (case nick of None \<Rightarrow> ?t | Some n \<Rightarrow> if n = [] then ?t else ?t\<lparr>nickname := n\<rparr>), ?w)"
    using found by (simp add: instantTrack_def)
  have override: "(nick = None \<or> nick = Some [] \<longrightarrow>
            fst (instantTrack rt number nick w) = Inr ?t) \<and>
         (\<forall>n. nick = Some n \<and> n \<noteq> [] \<longrightarrow>
            fst (instantTrack rt number nick w) = Inr (?t\<lparr>nickname := n\<rparr>))"
    using res by auto
  have requests: "trace (snd (instantTrack rt number nick w)) =
      trace w @ [Fetch (Query [number])]"
    using res tr by simp
  from override requests mapToTracking_value [of rt c w1] show ?thesis
    by (intro conjI) blast+
qed

subsection \<open>A number the gateway does not know\<close>

lemma instantTrack_register_fails:
  assumes "Track123_getTrackings rt [number] w = (Inr [], w1)"
      and "registerTracking rt number w1 = (Inl e, w2)"
  shows "instantTrack rt number nick w = (Inl NotFoundError, w2)"
  using assms by (simp add: instantTrack_def)

lemma instantTrack_requery:
  assumes "Track123_getTrackings rt [number] w = (Inr [], w1)"
      and "registerTracking rt number w1 = (Inr (), w2)"
  shows "snd (instantTrack rt number nick w) =
           snd (Track123_getTrackings rt [number] (setTimeout 500 w2))"
  using assms
  by (simp add: instantTrack_def Let_def split: prod.split sum.split list.split)

lemma trace_after_register:
  assumes "Track123_getTrackings rt [number] w = (Inr [], w1)"
      and "registerTracking rt number w1 = (r, w2)"
  shows "trace w2 = trace w @ [Fetch (Query [number]), Fetch (Import number)]"
  using Track123_getTrackings_trace [of rt "[number]" w]
        registerTracking_trace [of rt number w1] assms
  by simp

text \<open>
  Claim C6. When the first query finds no match, the registration succeeds and the query
  repeated after the wait finds no match either, \<open>instantTrack\<close> fails with
  \<open>NotFoundError\<close>, and the requests of the whole call are the query, the registration,
  the wait and the second query: no query follows the second.
\<close>

theorem instantTrack_still_unknown:
  assumes first: "Track123_getTrackings rt [number] w = (Inr [], w1)"
      and reg: "registerTracking rt number w1 = (Inr (), w2)"
      and second: "Track123_getTrackings rt [number] (setTimeout 500 w2) = (Inr [], w4)"
  shows "fst (instantTrack rt number nick w) = Inl NotFoundError \<and>
         trace (snd (instantTrack rt number nick w)) =
           trace w @ [Fetch (Query [number]), Fetch (Import number), Sleep 500,
                      Fetch (Query [number])]"
proof -
  have res: "instantTrack rt number nick w = (Inl NotFoundError, w4)"
    using first reg second by (simp add: instantTrack_def Let_def)
  have "trace w4 = trace (setTimeout 500 w2) @ [Fetch (Query [number])]"
    using Track123_getTrackings_trace [of rt "[number]" "setTimeout 500 w2"] second by simp
  then have "trace w4 = trace w @ [Fetch (Query [number]), Fetch (Import number), Sleep 500,
                                   Fetch (Query [number])]"
    using trace_after_register [OF first reg] by (simp add: setTimeout_def)
  with res show ?thesis by simp
qed

text \<open>
  Claim C1, as amended. When the first query finds no match, an error of the registration
  is not passed on: \<open>instantTrack\<close> fails with \<open>NotFoundError\<close> instead. The wait and
  the second query are made when the registration succeeded, and only then; after a failed
  registration the requests of the whole call are the first query and the registration.
\<close>

theorem instantTrack_registration:
  assumes first: "Track123_getTrackings rt [number] w = (Inr [], w1)"
  shows "(\<forall>e w2. registerTracking rt number w1 = (Inl e, w2) \<longrightarrow>
            fst (instantTrack rt number nick w) = Inl NotFoundError \<and>
            trace (snd (instantTrack rt number nick w)) =
              trace w @ [Fetch (Query [number]), Fetch (Import number)]) \<and>
         (\<forall>w2. registerTracking rt number w1 = (Inr (), w2) \<longrightarrow>
            trace (snd (instantTrack rt number nick w)) =
              trace w @ [Fetch (Query [number]), Fetch (Import number), Sleep 500,
                         Fetch (Query [number])])"
proof (intro conjI allI impI)
  fix e w2
  assume reg: "registerTracking rt number w1 = (Inl e, w2)"
  show "fst (instantTrack rt number nick w) = Inl NotFoundError"
    using instantTrack_register_fails [OF first reg] by simp
  show "trace (snd (instantTrack rt number nick w)) =
          trace w @ [Fetch (Query [number]), Fetch (Import number)]"
    using instantTrack_register_fails [OF first reg] trace_after_register [OF first reg]
    by simp
next
  fix w2
  assume reg: "registerTracking rt number w1 = (Inr (), w2)"
  have "trace (snd (instantTrack rt number nick w)) =
          trace (setTimeout 500 w2) @ [Fetch (Query [number])]"
    using instantTrack_requery [OF first reg]
          Track123_getTrackings_trace [of rt "[number]" "setTimeout 500 w2"]
    by simp
  then show "trace (snd (instantTrack rt number nick w)) =
          trace w @ [Fetch (Query [number]), Fetch (Import number), Sleep 500,
                     Fetch (Query [number])]"
    using trace_after_register [OF first reg] by (simp add: setTimeout_def)
qed

subsection \<open>The four sessions, run\<close>

lemmas session_defs =
  Track123_getTrackings_def registerTracking_def request_def reference_runtime_def
  scripted_def reply_def initial_world_def is_fetch_def ok_def success_def
  accepted_content_def setTimeout_def Let_def

lemma known_request:
  "request known_runtime (Query [''TH0123456789'']) initial_world =
     (Inr \<lparr>response_code = ''00000'', msg = None,
           data = Some \<lparr>accepted = Some \<lparr>content = Some [sample_content]\<rparr>\<rparr>\<rparr>,
      \<lparr>trace = [Fetch (Query [''TH0123456789''])], uuids_drawn = 0, clock_reads = 0\<rparr>)"
  by (simp add: known_runtime_def session_defs)

lemma unknown_first:
  "Track123_getTrackings unknown_runtime [''TH0123456789''] initial_world =
     (Inr [], \<lparr>trace = [Fetch (Query [''TH0123456789''])], uuids_drawn = 0, clock_reads = 0\<rparr>)"
  by (simp add: unknown_runtime_def session_defs)

lemma unknown_register:
  "registerTracking unknown_runtime ''TH0123456789''
     \<lparr>trace = [Fetch (Query [''TH0123456789''])], uuids_drawn = 0, clock_reads = 0\<rparr> =
     (Inr (), \<lparr>trace = [Fetch (Query [''TH0123456789'']), Fetch (Import ''TH0123456789'')],
               uuids_drawn = 0, clock_reads = 0\<rparr>)"
  by (simp add: unknown_runtime_def session_defs)

lemma unknown_second:
  "Track123_getTrackings unknown_runtime [''TH0123456789'']
     (setTimeout 500
       \<lparr>trace = [Fetch (Query [''TH0123456789'']), Fetch (Import ''TH0123456789'')],
        uuids_drawn = 0, clock_reads = 0\<rparr>) =
     (Inr [], \<lparr>trace = [Fetch (Query [''TH0123456789'']), Fetch (Import ''TH0123456789''),
                        Sleep 500, Fetch (Query [''TH0123456789''])],
               uuids_drawn = 0, clock_reads = 0\<rparr>)"
  by (simp add: unknown_runtime_def session_defs)

lemma refusing_first:
  "Track123_getTrackings refusing_runtime [''TH0123456789''] initial_world =
     (Inr [], \<lparr>trace = [Fetch (Query [''TH0123456789''])], uuids_drawn = 0, clock_reads = 0\<rparr>)"
  by (simp add: refusing_runtime_def session_defs)

lemma refusing_register:
  "registerTracking refusing_runtime ''TH0123456789''
     \<lparr>trace = [Fetch (Query [''TH0123456789''])], uuids_drawn = 0, clock_reads = 0\<rparr> =
     (Inl (Error ''Invalid tracking number''),
      \<lparr>trace = [Fetch (Query [''TH0123456789'']), Fetch (Import ''TH0123456789'')],
       uuids_drawn = 0, clock_reads = 0\<rparr>)"
  by (simp add: refusing_runtime_def session_defs)

lemma registering_first:
  "Track123_getTrackings registering_runtime [''TH0123456789''] initial_world =
     (Inr [], \<lparr>trace = [Fetch (Query [''TH0123456789''])], uuids_drawn = 0, clock_reads = 0\<rparr>)"
  by (simp add: registering_runtime_def session_defs)

lemma registering_register:
  "registerTracking registering_runtime ''TH0123456789''
     \<lparr>trace = [Fetch (Query [''TH0123456789''])], uuids_drawn = 0, clock_reads = 0\<rparr> =
     (Inr (), \<lparr>trace = [Fetch (Query [''TH0123456789'']), Fetch (Import ''TH0123456789'')],
               uuids_drawn = 0, clock_reads = 0\<rparr>)"
  by (simp add: registering_runtime_def session_defs)

lemma known_runtime_parts:
  "randomUUID known_runtime 0 = ''uuid-0''"
  "Date_now known_runtime 0 = 1767225600000"
  "mapTrack123Status known_runtime (Some ''IN_TRANSIT'') = In_transit"
  "mapTrack123Status known_runtime (Some ''IN_TRANSIT_01'') = Unknown"
  "Date_parse known_runtime ''2026-01-22 07:45:24'' = Date 1769067924000"
  "Date_parse known_runtime ''2026-01-23 09:10:00'' = Date 1769159400000"
  by code_simp+

theorem instantTrack_known_witness:
  "request known_runtime (Query [''TH0123456789'']) initial_world =
     (Inr \<lparr>response_code = ''00000'', msg = None,
           data = Some \<lparr>accepted = Some \<lparr>content = Some [sample_content]\<rparr>\<rparr>\<rparr>,
      \<lparr>trace = [Fetch (Query [''TH0123456789''])], uuids_drawn = 0, clock_reads = 0\<rparr>) \<and>
   fst (instantTrack known_runtime ''TH0123456789'' (Some ''Shoes'') initial_world) =
     Inr \<lparr>tracking_id = ''uuid-0'',
          trackingNumber = ''TH0123456789'',
          nickname = ''Shoes'',
          carrier = \<lparr>code = ''kerry'', name = ''Kerry Express'', logo = None,
                      trackingUrl = None\<rparr>,
          status = In_transit,
          events = [\<lparr>timestamp = Date 1769067924000, location = ''Bangkok'',
                     description = ''Arrived at sorting hub'', event_status = In_transit\<rparr>,
                    \<lparr>timestamp = Date 1769159400000, location = [],
                     description = ''Departed from sorting hub'', event_status = Unknown\<rparr>],
          estimatedDelivery = None,
          transitDays = Some 3,
          createdAt = Date 1767225600000,
          updatedAt = Date 1767225600000\<rparr> \<and>
   fst (instantTrack known_runtime ''TH0123456789'' None initial_world) =
     Inr \<lparr>tracking_id = ''uuid-0'',
          trackingNumber = ''TH0123456789'',
          nickname = ''TH0123456789'',
          carrier = \<lparr>code = ''kerry'', name = ''Kerry Express'', logo = None,
                      trackingUrl = None\<rparr>,
          status = In_transit,
          events = [\<lparr>timestamp = Date 1769067924000, location = ''Bangkok'',
                     description = ''Arrived at sorting hub'', event_status = In_transit\<rparr>,
                    \<lparr>timestamp = Date 1769159400000, location = [],
                     description = ''Departed from sorting hub'', event_status = Unknown\<rparr>],
          estimatedDelivery = None,
          transitDays = Some 3,
          createdAt = Date 1767225600000,
          updatedAt = Date 1767225600000\<rparr> \<and>
   trace (snd (instantTrack known_runtime ''TH0123456789'' (Some ''Shoes'') initial_world)) =
     [Fetch (Query [''TH0123456789''])]"
proof -
  let ?r = "\<lparr>response_code = ''00000'', msg = None,
             data = Some \<lparr>accepted = Some \<lparr>content = Some [sample_content]\<rparr>\<rparr>\<rparr>"
  let ?w1 = "\<lparr>trace = [Fetch (Query [''TH0123456789''])], uuids_drawn = 0, clock_reads = 0\<rparr>"
  have code: "response_code ?r = success"
    by (simp add: success_def)
  have cont: "accepted_content ?r = Some (sample_content # [])"
    by (simp add: accepted_content_def)
  have tr0: "trace initial_world = []"
    by (simp add: initial_world_def)
  note a = instantTrack_known [OF known_request code cont, of "Some ''Shoes''"]
  note b = instantTrack_known [OF known_request code cont, of None]
  from a have t: "fst (mapToTracking known_runtime sample_content ?w1) =
     \<lparr>tracking_id = ''uuid-0'',
      trackingNumber = ''TH0123456789'',
      nickname = ''TH0123456789'',
      carrier = \<lparr>code = ''kerry'', name = ''Kerry Express'', logo = None, trackingUrl = None\<rparr>,
      status = In_transit,
      events = [\<lparr>timestamp = Date 1769067924000, location = ''Bangkok'',
                 description = ''Arrived at sorting hub'', event_status = In_transit\<rparr>,
                \<lparr>timestamp = Date 1769159400000, location = [],
                 description = ''Departed from sorting hub'', event_status = Unknown\<rparr>],
      estimatedDelivery = None,
      transitDays = Some 3,
      createdAt = Date 1767225600000,
      updatedAt = Date 1767225600000\<rparr>"
    by (simp add: sample_content_def known_runtime_parts)
  from a have a1: "fst (instantTrack known_runtime ''TH0123456789'' (Some ''Shoes'')
                          initial_world) =
      Inr ((fst (mapToTracking known_runtime sample_content ?w1))\<lparr>nickname := ''Shoes''\<rparr>)"
    by simp
  from b have b1: "fst (instantTrack known_runtime ''TH0123456789'' None initial_world) =
      Inr (fst (mapToTracking known_runtime sample_content ?w1))"
    by simp
  from a tr0 have a2:
    "trace (snd (instantTrack known_runtime ''TH0123456789'' (Some ''Shoes'') initial_world)) =
       [Fetch (Query [''TH0123456789''])]"
    by simp
  show ?thesis
    unfolding a1 b1 a2 t known_request by simp
qed

theorem instantTrack_still_unknown_witness:
  "Track123_getTrackings unknown_runtime [''TH0123456789''] initial_world =
     (Inr [], \<lparr>trace = [Fetch (Query [''TH0123456789''])], uuids_drawn = 0, clock_reads = 0\<rparr>) \<and>
   fst (instantTrack unknown_runtime ''TH0123456789'' None initial_world) = Inl NotFoundError \<and>
   trace (snd (instantTrack unknown_runtime ''TH0123456789'' None initial_world)) =
     [Fetch (Query [''TH0123456789'']), Fetch (Import ''TH0123456789''), Sleep 500,
      Fetch (Query [''TH0123456789''])]"
proof -
  have tr0: "trace initial_world = []"
    by (simp add: initial_world_def)
  note a = instantTrack_still_unknown [OF unknown_first unknown_register unknown_second, of None]
  from a tr0 unknown_first show ?thesis by simp
qed

text \<open>
  Claim C1, as stated, fails. The gateway finds no match, then refuses the registration,
  and would have found the number on a second query: \<open>instantTrack\<close> makes the first
  query and the registration and nothing more, neither the wait nor the second query, and
  fails with \<open>NotFoundError\<close>.
\<close>

theorem instantTrack_no_requery_counterexample:
  "Track123_getTrackings refusing_runtime [''TH0123456789''] initial_world =
     (Inr [], \<lparr>trace = [Fetch (Query [''TH0123456789''])], uuids_drawn = 0, clock_reads = 0\<rparr>) \<and>
   fst (registerTracking refusing_runtime ''TH0123456789''
     \<lparr>trace = [Fetch (Query [''TH0123456789''])], uuids_drawn = 0, clock_reads = 0\<rparr>) =
     Inl (Error ''Invalid tracking number'') \<and>
   fst (instantTrack refusing_runtime ''TH0123456789'' None initial_world) = Inl NotFoundError \<and>
   trace (snd (instantTrack refusing_runtime ''TH0123456789'' None initial_world)) =
     [Fetch (Query [''TH0123456789'']), Fetch (Import ''TH0123456789'')] \<and>
   Sleep 500 \<notin> set (trace (snd (instantTrack refusing_runtime ''TH0123456789'' None
                                   initial_world))) \<and>
   length (filter (\<lambda>a. a = Fetch (Query [''TH0123456789'']))
             (trace (snd (instantTrack refusing_runtime ''TH0123456789'' None
                            initial_world)))) = 1"
proof -
  have res: "instantTrack refusing_runtime ''TH0123456789'' None initial_world =
      (Inl NotFoundError,
       \<lparr>trace = [Fetch (Query [''TH0123456789'']), Fetch (Import ''TH0123456789'')],
        uuids_drawn = 0, clock_reads = 0\<rparr>)"
    using instantTrack_register_fails [OF refusing_first refusing_register] .
  show ?thesis
    by (simp add: res refusing_first refusing_register)
qed

theorem instantTrack_registration_witness:
  "Track123_getTrackings refusing_runtime [''TH0123456789''] initial_world =
     (Inr [], \<lparr>trace = [Fetch (Query [''TH0123456789''])], uuids_drawn = 0, clock_reads = 0\<rparr>) \<and>
   registerTracking refusing_runtime ''TH0123456789''
     \<lparr>trace = [Fetch (Query [''TH0123456789''])], uuids_drawn = 0, clock_reads = 0\<rparr> =
     (Inl (Error ''Invalid tracking number''),
      \<lparr>trace = [Fetch (Query [''TH0123456789'']), Fetch (Import ''TH0123456789'')],
       uuids_drawn = 0, clock_reads = 0\<rparr>) \<and>
   fst (instantTrack refusing_runtime ''TH0123456789'' None initial_world) = Inl NotFoundError \<and>
   trace (snd (instantTrack refusing_runtime ''TH0123456789'' None initial_world)) =
     [Fetch (Query [''TH0123456789'']), Fetch (Import ''TH0123456789'')] \<and>
   Track123_getTrackings registering_runtime [''TH0123456789''] initial_world =
     (Inr [], \<lparr>trace = [Fetch (Query [''TH0123456789''])], uuids_drawn = 0, clock_reads = 0\<rparr>) \<and>
   registerTracking registering_runtime ''TH0123456789''
     \<lparr>trace = [Fetch (Query [''TH0123456789''])], uuids_drawn = 0, clock_reads = 0\<rparr> =
     (Inr (), \<lparr>trace = [Fetch (Query [''TH0123456789'']), Fetch (Import ''TH0123456789'')],
               uuids_drawn = 0, clock_reads = 0\<rparr>) \<and>
   trace (snd (instantTrack registering_runtime ''TH0123456789'' None initial_world)) =
     [Fetch (Query [''TH0123456789'']), Fetch (Import ''TH0123456789''), Sleep 500,
      Fetch (Query [''TH0123456789''])]"
proof -
  have tr0: "trace initial_world = []"
    by (simp add: initial_world_def)
  note a = instantTrack_registration [OF refusing_first, of None]
  note b = instantTrack_registration [OF registering_first, of None]
  from a refusing_register have a1:
    "fst (instantTrack refusing_runtime ''TH0123456789'' None initial_world) =
       Inl NotFoundError \<and>
     trace (snd (instantTrack refusing_runtime ''TH0123456789'' None initial_world)) =
       trace initial_world @ [Fetch (Query [''TH0123456789'']), Fetch (Import ''TH0123456789'')]"
    by blast
  from b registering_register have b1:
    "trace (snd (instantTrack registering_runtime ''TH0123456789'' None initial_world)) =
       trace initial_world @ [Fetch (Query [''TH0123456789'']), Fetch (Import ''TH0123456789''),
                              Sleep 500, Fetch (Query [''TH0123456789''])]"
    by blast
  from a1 b1 tr0 refusing_first refusing_register registering_first registering_register
  show ?thesis by simp
qed

section \<open>The storage service: properties\<close>

subsection \<open>Reading\<close>

text \<open>
  Claim C10. When the storage key is unset, or holds a text that does not parse,
  \<open>getTrackings\<close> returns the empty list; it has no error result, the
  \<^verbatim>\<open>catch\<close> turning every failure into the empty list.
\<close>

theorem getTrackings_unset_or_unparsable:
  "getTrackings None = [] \<and> getTrackings (Some (Unparsable s)) = []"
  by (simp add: getTrackings_def JSON_parse_def)

subsection \<open>What is read back\<close>

lemma rehydrateTracking_transitDays: "transitDays (rehydrateTracking d) = None"
  by (simp add: rehydrateTracking_def)

lemma rehydrateTracking_trackingNumber:
  "trackingNumber (rehydrateTracking (stringify_tracking t)) = trackingNumber t"
  by (simp add: rehydrateTracking_def stringify_tracking_def)

lemma getTrackings_persist:
  "getTrackings (persist zs) = map (\<lambda>z. rehydrateTracking (stringify_tracking z)) zs"
  by (simp add: getTrackings_def persist_def JSON_stringify_def JSON_parse_def comp_def)

lemma Date_of_toJSON_Date_of: "Date_of (toJSON (Date_of j)) = Date_of j"
  by (cases j) (simp_all add: Date_of_def toJSON_def)

lemma toJSON_Date_of_Iso: "toJSON (Date_of (Iso n)) = Iso n"
  by (simp add: Date_of_def toJSON_def)

lemma rehydrateEvent_again:
  "rehydrateEvent (stringify_event (rehydrateEvent e)) = rehydrateEvent e"
  by (simp add: rehydrateEvent_def stringify_event_def Date_of_toJSON_Date_of)

lemma rehydrateTracking_again:
  "rehydrateTracking (stringify_tracking (rehydrateTracking d)) = rehydrateTracking d"
proof -
  have ev: "map (rehydrateEvent \<circ> (stringify_event \<circ> rehydrateEvent)) (json_events d) =
            map rehydrateEvent (json_events d)"
    by (rule map_cong) (simp_all add: rehydrateEvent_again)
  show ?thesis
  proof (cases "json_estimatedDelivery d")
    case None
    then show ?thesis
      by (simp add: rehydrateTracking_def stringify_tracking_def Date_of_toJSON_Date_of ev)
  next
    case (Some j)
    then show ?thesis
      by (cases j)
         (simp_all add: rehydrateTracking_def stringify_tracking_def Date_of_toJSON_Date_of ev
            toJSON_Date_of_Iso)
  qed
qed

lemma getTrackings_read_again:
  "map (\<lambda>z. rehydrateTracking (stringify_tracking z)) (getTrackings store) = getTrackings store"
  by (simp add: getTrackings_def JSON_parse_def rehydrateTracking_again
        split: option.split item.split)

subsection \<open>Looking a tracking number up\<close>

lemma findIndex_None: "findIndex P xs = None \<longleftrightarrow> (\<forall>x \<in> set xs. \<not> P x)"
  by (induction xs) auto

lemma findIndex_Some: "findIndex P xs = Some i \<Longrightarrow> i < length xs \<and> P (xs ! i)"
proof (induction xs arbitrary: i)
  case Nil
  then show ?case by simp
next
  case (Cons x xs)
  show ?case
  proof (cases "P x")
    case True
    with Cons.prems show ?thesis by simp
  next
    case False
    with Cons.prems obtain j where j: "findIndex P xs = Some j" and i: "i = Suc j"
      by auto
    from Cons.IH [OF j] i show ?thesis by simp
  qed
qed

subsection \<open>Saving\<close>

lemma saveTracking_existing:
  assumes "findIndex (\<lambda>x. trackingNumber x = trackingNumber t) (getTrackings store) = Some i"
  shows "getTrackings (saveTracking t store) =
           (getTrackings store)[i := rehydrateTracking (stringify_tracking t)]"
proof -
  have "getTrackings (saveTracking t store) =
          map (\<lambda>z. rehydrateTracking (stringify_tracking z)) ((getTrackings store)[i := t])"
    using assms by (simp add: saveTracking_def getTrackings_persist)
  also have "\<dots> = (map (\<lambda>z. rehydrateTracking (stringify_tracking z)) (getTrackings store))
                     [i := rehydrateTracking (stringify_tracking t)]"
    by (simp add: map_update)
  finally show ?thesis by (simp add: getTrackings_read_again)
qed

lemma saveTracking_fresh:
  assumes "findIndex (\<lambda>x. trackingNumber x = trackingNumber t) (getTrackings store) = None"
  shows "getTrackings (saveTracking t store) =
           getTrackings store @ [rehydrateTracking (stringify_tracking t)]"
  using assms by (simp add: saveTracking_def getTrackings_persist getTrackings_read_again)

text \<open>
  Claim C9. Let the tracking numbers of the stored collection be pairwise distinct.
  Saving a tracking whose number occurs replaces the record at the position of that number
  and leaves the length unchanged; saving one with a fresh number appends it; in both
  cases the tracking numbers of the collection read afterwards are pairwise distinct. The
  record read at that position is the saved one as \<open>getTrackings\<close> reads it back; it has
  the tracking number of the saved one.
\<close>

theorem saveTracking_upsert:
  assumes "distinct (map trackingNumber (getTrackings store))"
  shows "trackingNumber (rehydrateTracking (stringify_tracking t)) = trackingNumber t \<and>
         (trackingNumber t \<in> set (map trackingNumber (getTrackings store)) \<longrightarrow>
            (\<exists>i < length (getTrackings store).
               trackingNumber (getTrackings store ! i) = trackingNumber t \<and>
               getTrackings (saveTracking t store) =
                 (getTrackings store)[i := rehydrateTracking (stringify_tracking t)]) \<and>
            length (getTrackings (saveTracking t store)) = length (getTrackings store)) \<and>
         (trackingNumber t \<notin> set (map trackingNumber (getTrackings store)) \<longrightarrow>
            getTrackings (saveTracking t store) =
              getTrackings store @ [rehydrateTracking (stringify_tracking t)]) \<and>
         distinct (map trackingNumber (getTrackings (saveTracking t store)))"
proof (cases "findIndex (\<lambda>x. trackingNumber x = trackingNumber t) (getTrackings store)")
  case None
  then have fresh: "trackingNumber t \<notin> set (map trackingNumber (getTrackings store))"
    by (auto simp: findIndex_None)
  have eq: "getTrackings (saveTracking t store) =
              getTrackings store @ [rehydrateTracking (stringify_tracking t)]"
    using None by (rule saveTracking_fresh)
  have "distinct (map trackingNumber (getTrackings (saveTracking t store)))"
    using assms fresh by (simp add: eq rehydrateTracking_trackingNumber)
  with fresh eq show ?thesis
    by (simp add: rehydrateTracking_trackingNumber)
next
  case (Some i)
  from findIndex_Some [OF Some]
  have i: "i < length (getTrackings store)"
    and at: "trackingNumber (getTrackings store ! i) = trackingNumber t"
    by simp_all
  have occurs: "trackingNumber t \<in> set (map trackingNumber (getTrackings store))"
    using i at by (metis length_map nth_map nth_mem)
  have eq: "getTrackings (saveTracking t store) =
              (getTrackings store)[i := rehydrateTracking (stringify_tracking t)]"
    using Some by (rule saveTracking_existing)
  have "map trackingNumber (getTrackings (saveTracking t store)) =
          (map trackingNumber (getTrackings store))[i := trackingNumber t]"
    by (simp add: eq map_update rehydrateTracking_trackingNumber)
  also have "\<dots> = map trackingNumber (getTrackings store)"
    using i at by (metis list_update_id nth_map)
  finally have "distinct (map trackingNumber (getTrackings (saveTracking t store)))"
    using assms by simp
  moreover have "\<exists>j < length (getTrackings store).
      trackingNumber (getTrackings store ! j) = trackingNumber t \<and>
      getTrackings (saveTracking t store) =
        (getTrackings store)[j := rehydrateTracking (stringify_tracking t)]"
    using i at eq by blast
  ultimately show ?thesis
    using occurs eq by (simp add: rehydrateTracking_trackingNumber)
qed

theorem saveTracking_upsert_witness:
  "distinct (map trackingNumber (getTrackings (persist [sample_tracking]))) \<and>
   trackingNumber (sample_tracking\<lparr>nickname := ''Boots''\<rparr>) \<in>
     set (map trackingNumber (getTrackings (persist [sample_tracking]))) \<and>
   length (getTrackings (saveTracking (sample_tracking\<lparr>nickname := ''Boots''\<rparr>)
                          (persist [sample_tracking]))) = 1 \<and>
   distinct (map trackingNumber
               (getTrackings (saveTracking (sample_tracking\<lparr>nickname := ''Boots''\<rparr>)
                                (persist [sample_tracking])))) \<and>
   trackingNumber (sample_tracking\<lparr>trackingNumber := ''TH9876543210''\<rparr>) \<notin>
     set (map trackingNumber (getTrackings (persist [sample_tracking]))) \<and>
   getTrackings (saveTracking (sample_tracking\<lparr>trackingNumber := ''TH9876543210''\<rparr>)
                   (persist [sample_tracking])) =
     getTrackings (persist [sample_tracking]) @
       [rehydrateTracking (stringify_tracking
          (sample_tracking\<lparr>trackingNumber := ''TH9876543210''\<rparr>))]"
proof -
  have numbers: "map trackingNumber (getTrackings (persist [sample_tracking])) =
                   [''TH0123456789'']"
    by (simp add: getTrackings_persist rehydrateTracking_trackingNumber sample_tracking_def)
  have d: "distinct (map trackingNumber (getTrackings (persist [sample_tracking])))"
    by (simp add: numbers)
  have len: "length (getTrackings (persist [sample_tracking])) = 1"
    by (simp add: getTrackings_persist)
  have occurs: "trackingNumber (sample_tracking\<lparr>nickname := ''Boots''\<rparr>) \<in>
      set (map trackingNumber (getTrackings (persist [sample_tracking])))"
    by (simp add: numbers) (simp add: sample_tracking_def)
  have fresh: "trackingNumber (sample_tracking\<lparr>trackingNumber := ''TH9876543210''\<rparr>) \<notin>
      set (map trackingNumber (getTrackings (persist [sample_tracking])))"
    by (simp add: numbers)
  note a = saveTracking_upsert [OF d, of "sample_tracking\<lparr>nickname := ''Boots''\<rparr>"]
  note b = saveTracking_upsert [OF d, of "sample_tracking\<lparr>trackingNumber := ''TH9876543210''\<rparr>"]
  from a occurs
  have a0: "length (getTrackings (saveTracking (sample_tracking\<lparr>nickname := ''Boots''\<rparr>)
                                     (persist [sample_tracking]))) =
              length (getTrackings (persist [sample_tracking])) \<and>
            distinct (map trackingNumber
               (getTrackings (saveTracking (sample_tracking\<lparr>nickname := ''Boots''\<rparr>)
                                (persist [sample_tracking]))))"
    by blast
  then
  have a1: "length (getTrackings (saveTracking (sample_tracking\<lparr>nickname := ''Boots''\<rparr>)
                                     (persist [sample_tracking]))) = 1 \<and>
            distinct (map trackingNumber
               (getTrackings (saveTracking (sample_tracking\<lparr>nickname := ''Boots''\<rparr>)
                                (persist [sample_tracking]))))"
    using len by presburger
  from b fresh
  have b1: "getTrackings (saveTracking (sample_tracking\<lparr>trackingNumber := ''TH9876543210''\<rparr>)
                   (persist [sample_tracking])) =
     getTrackings (persist [sample_tracking]) @
       [rehydrateTracking (stringify_tracking
          (sample_tracking\<lparr>trackingNumber := ''TH9876543210''\<rparr>))]"
    by blast
  from d occurs fresh a1 b1 show ?thesis by blast
qed

subsection \<open>The round trip\<close>

lemma getTrackings_transitDays:
  "t \<in> set (getTrackings store) \<Longrightarrow> transitDays t = None"
  by (auto simp: getTrackings_def JSON_parse_def rehydrateTracking_transitDays
           split: option.splits item.splits if_splits)

lemma saveTracking_first:
  "getTrackings (saveTracking t None) = [rehydrateTracking (stringify_tracking t)]"
proof -
  have "getTrackings None = []"
    by (simp add: getTrackings_def)
  then show ?thesis
    by (simp add: saveTracking_def getTrackings_persist)
qed

lemma Date_of_toJSON: "valid d \<Longrightarrow> Date_of (toJSON d) = d"
  by (cases d) (simp_all add: valid_def Date_of_def toJSON_def)

lemma rehydrateEvent_stringify:
  "valid (timestamp e) \<Longrightarrow> rehydrateEvent (stringify_event e) = e"
  by (simp add: rehydrateEvent_def stringify_event_def Date_of_toJSON)

text \<open>An invalid date is written as \<^verbatim>\<open>null\<close> and read back as the epoch.\<close>

lemma rehydrateEvent_invalid:
  "timestamp e = Invalid_Date \<Longrightarrow>
     rehydrateEvent (stringify_event e) = e\<lparr>timestamp := Date 0\<rparr>"
  by (simp add: rehydrateEvent_def stringify_event_def Date_of_def toJSON_def)

text \<open>
  With valid dates, every property but \<open>transitDays\<close> is read back as it was
  written.
\<close>

lemma read_back_valid_dates:
  assumes "valid_dates t"
  shows "rehydrateTracking (stringify_tracking t) = t\<lparr>transitDays := None\<rparr>"
proof -
  from assms have "\<forall>e \<in> set (events t). valid (timestamp e)"
    by (simp add: valid_dates_def list_all_iff)
  then have ev: "map (\<lambda>e. rehydrateEvent (stringify_event e)) (events t) = events t"
    by (simp add: rehydrateEvent_stringify map_idI)
  have est: "(case map_option toJSON (estimatedDelivery t) of
                None \<Rightarrow> None
              | Some Null \<Rightarrow> None
              | Some (Iso n) \<Rightarrow> Some (Date_of (Iso n))) = estimatedDelivery t"
  proof (cases "estimatedDelivery t")
    case None
    then show ?thesis by simp
  next
    case (Some d)
    with assms have "valid d" by (simp add: valid_dates_def)
    then obtain n where "d = Date n"
      by (cases d) (simp_all add: valid_def)
    with Some show ?thesis by (simp add: toJSON_def Date_of_def)
  qed
  from assms have "Date_of (toJSON (createdAt t)) = createdAt t"
    and "Date_of (toJSON (updatedAt t)) = updatedAt t"
    by (simp_all add: valid_dates_def Date_of_toJSON)
  with ev est show ?thesis
    by (simp add: rehydrateTracking_def stringify_tracking_def comp_def)
qed

text \<open>
  Claim C2 fails on the code. A tracking with two transit days is saved into an empty
  store and read back: every field but \<open>transitDays\<close> is as it was saved, and
  \<open>transitDays\<close> is gone, so the record read is not the record saved.
\<close>

theorem saveTracking_loses_transitDays:
  "transitDays sample_tracking = Some 2 \<and>
   getTrackings (saveTracking sample_tracking None) = [sample_tracking\<lparr>transitDays := None\<rparr>] \<and>
   getTrackings (saveTracking sample_tracking None) \<noteq> [sample_tracking]"
proof -
  have read: "rehydrateTracking (stringify_tracking sample_tracking) =
                sample_tracking\<lparr>transitDays := None\<rparr>"
    by (simp add: rehydrateTracking_def stringify_tracking_def rehydrateEvent_def
          stringify_event_def Date_of_def toJSON_def sample_tracking_def)
  have days: "transitDays sample_tracking = Some 2"
    by (simp add: sample_tracking_def)
  have "transitDays (sample_tracking\<lparr>transitDays := None\<rparr>) \<noteq> transitDays sample_tracking"
    by (simp add: days)
  then have "sample_tracking\<lparr>transitDays := None\<rparr> \<noteq> sample_tracking"
    by metis
  with read days show ?thesis
    by (simp add: saveTracking_first)
qed

section \<open>Monthly statistics: properties\<close>

subsection \<open>The month key determines the year and the month\<close>

lemma digit_char_inj: "a < 10 \<Longrightarrow> b < 10 \<Longrightarrow> digit_char a = digit_char b \<longleftrightarrow> a = b"
  by (simp add: digit_char_def nth_eq_iff_index_eq)

lemma digit_char_digit: "d < 10 \<Longrightarrow> digit_char d \<in> set ''0123456789''"
  unfolding digit_char_def by (rule nth_mem) simp

lemma digit_char_zero: "digit_char 0 = CHR ''0''"
  by (simp add: digit_char_def)

lemma show_nat_digits: "set (show_nat n) \<subseteq> set ''0123456789''"
proof (induction n rule: show_nat.induct)
  case (1 n)
  show ?case
  proof (cases "n < 10")
    case True
    then show ?thesis
      using digit_char_digit [of n] by (subst show_nat.simps) simp
  next
    case False
    have "n mod 10 < 10" by simp
    then have "digit_char (n mod 10) \<in> set ''0123456789''"
      by (rule digit_char_digit)
    with False "1.IH" show ?thesis
      by (subst show_nat.simps) simp
  qed
qed

lemma show_nat_not_Nil: "show_nat n \<noteq> []"
  by (subst show_nat.simps) simp

lemma show_nat_small: "n < 10 \<Longrightarrow> show_nat n = [digit_char n]"
  by (subst show_nat.simps) simp

lemma show_nat_large:
  "\<not> n < 10 \<Longrightarrow> show_nat n = show_nat (n div 10) @ [digit_char (n mod 10)]"
  by (subst show_nat.simps) simp

lemma show_nat_long: "\<not> n < 10 \<Longrightarrow> 2 \<le> length (show_nat n)"
proof -
  assume big: "\<not> n < 10"
  have "1 \<le> length (show_nat (n div 10))"
    using show_nat_not_Nil [of "n div 10"] by (cases "show_nat (n div 10)") simp_all
  with big show ?thesis by (simp add: show_nat_large)
qed

lemma show_nat_inj: "show_nat n = show_nat k \<Longrightarrow> n = k"
proof (induction n arbitrary: k rule: show_nat.induct)
  case (1 n)
  show ?case
  proof (cases "n < 10")
    case small: True
    show ?thesis
    proof (cases "k < 10")
      case True
      with small "1.prems" show ?thesis
        by (simp add: show_nat_small digit_char_inj)
    next
      case False
      from show_nat_long [OF False] "1.prems" small
      have "2 \<le> length [digit_char n]"
        by (simp add: show_nat_small)
      then show ?thesis by simp
    qed
  next
    case big: False
    show ?thesis
    proof (cases "k < 10")
      case True
      from show_nat_long [OF big] "1.prems" True
      have "2 \<le> length [digit_char k]"
        by (simp add: show_nat_small)
      then show ?thesis by simp
    next
      case False
      from "1.prems" big False
      have init: "show_nat (n div 10) = show_nat (k div 10)"
        and final: "digit_char (n mod 10) = digit_char (k mod 10)"
        by (simp_all add: show_nat_large)
      from "1.IH" [OF big init] have "n div 10 = k div 10" .
      moreover from final have "n mod 10 = k mod 10"
        by (simp add: digit_char_inj)
      ultimately show ?thesis
        by (metis div_mult_mod_eq)
    qed
  qed
qed

lemma show_nat_hd: "0 < n \<Longrightarrow> hd (show_nat n) \<noteq> CHR ''0''"
proof (induction n rule: show_nat.induct)
  case (1 n)
  show ?case
  proof (cases "n < 10")
    case True
    with "1.prems" have "digit_char n \<noteq> digit_char 0"
      by (simp add: digit_char_inj)
    with True show ?thesis
      by (simp add: show_nat_small digit_char_zero)
  next
    case False
    then have "0 < n div 10" by simp
    from "1.IH" [OF False this] False show ?thesis
      by (simp add: show_nat_large show_nat_not_Nil)
  qed
qed

lemma padStart2_small: "n < 10 \<Longrightarrow> padStart2 (show_nat n) = [CHR ''0'', digit_char n]"
  by (simp add: padStart2_def show_nat_small)

lemma padStart2_large: "\<not> n < 10 \<Longrightarrow> padStart2 (show_nat n) = show_nat n"
  using show_nat_long [of n] by (simp add: padStart2_def)

lemma padStart2_inj:
  assumes "padStart2 (show_nat n) = padStart2 (show_nat k)"
  shows "n = k"
proof -
  have clash: False
    if small: "a < 10" and big: "\<not> b < 10"
      and eq: "padStart2 (show_nat a) = padStart2 (show_nat b)" for a b :: nat
  proof -
    from eq small big have "show_nat b = [CHR ''0'', digit_char a]"
      by (simp add: padStart2_small padStart2_large)
    then have "hd (show_nat b) = CHR ''0''" by simp
    moreover from big have "0 < b" by simp
    ultimately show False using show_nat_hd [of b] by simp
  qed
  show ?thesis
  proof (cases "n < 10")
    case small: True
    show ?thesis
    proof (cases "k < 10")
      case True
      with small assms show ?thesis
        by (simp add: padStart2_small digit_char_inj)
    next
      case False
      from clash [OF small False assms] show ?thesis ..
    qed
  next
    case big: False
    show ?thesis
    proof (cases "k < 10")
      case True
      from clash [OF True big assms [symmetric]] show ?thesis ..
    next
      case False
      with big assms show ?thesis
        by (simp add: padStart2_large show_nat_inj)
    qed
  qed
qed

lemma padStart2_digits: "set (padStart2 (show_nat n)) \<subseteq> set ''0123456789''"
  using show_nat_digits [of n] by (auto simp: padStart2_def)

lemma show_int_inj: "show_int i = show_int j \<Longrightarrow> i = j"
proof -
  assume eq: "show_int i = show_int j"
  have no_minus: "hd (show_nat n) \<noteq> CHR ''-''" for n
  proof -
    have "hd (show_nat n) \<in> set (show_nat n)"
      using show_nat_not_Nil by simp
    with show_nat_digits [of n] show ?thesis by auto
  qed
  have clash: False if "a < 0" and "\<not> b < 0" and "show_int a = show_int b" for a b :: int
  proof -
    from that have "CHR ''-'' # show_nat (nat (- a)) = show_nat (nat b)"
      by (simp add: show_int_def)
    then have "hd (show_nat (nat b)) = CHR ''-''"
      by (metis list.sel(1))
    with no_minus show False by simp
  qed
  show "i = j"
  proof (cases "i < 0")
    case neg: True
    show ?thesis
    proof (cases "j < 0")
      case True
      with neg eq have "nat (- i) = nat (- j)"
        by (simp add: show_int_def show_nat_inj)
      with neg True show ?thesis by simp
    next
      case False
      from clash [OF neg False eq] show ?thesis ..
    qed
  next
    case pos: False
    show ?thesis
    proof (cases "j < 0")
      case True
      from clash [OF True pos eq [symmetric]] show ?thesis ..
    next
      case False
      with pos eq have "nat i = nat j"
        by (simp add: show_int_def show_nat_inj)
      with pos False show ?thesis by simp
    qed
  qed
qed

lemma split_at_first:
  "c \<notin> set xs \<Longrightarrow> c \<notin> set xs' \<Longrightarrow> xs @ c # ys = xs' @ c # ys' \<Longrightarrow> xs = xs' \<and> ys = ys'"
proof (induction xs arbitrary: xs')
  case Nil
  then show ?case by (cases xs') auto
next
  case (Cons x xs)
  show ?case
  proof (cases xs')
    case Nil
    with Cons.prems show ?thesis by auto
  next
    case (Cons x' zs)
    with Cons.prems have "x = x'" and "xs @ c # ys = zs @ c # ys'"
      and "c \<notin> set xs" and "c \<notin> set zs"
      by simp_all
    with Cons.IH [of zs] Cons show ?thesis by simp
  qed
qed

lemma split_at_last_minus:
  assumes "a @ CHR ''-'' # b = a' @ CHR ''-'' # b'"
      and "CHR ''-'' \<notin> set b" and "CHR ''-'' \<notin> set b'"
  shows "a = a' \<and> b = b'"
proof -
  from assms(1) have "rev (a @ CHR ''-'' # b) = rev (a' @ CHR ''-'' # b')"
    by simp
  then have "rev b @ CHR ''-'' # rev a = rev b' @ CHR ''-'' # rev a'"
    by simp
  moreover have "CHR ''-'' \<notin> set (rev b)" and "CHR ''-'' \<notin> set (rev b')"
    using assms(2,3) by simp_all
  ultimately have "rev b = rev b' \<and> rev a = rev a'"
    by (rule split_at_first [rotated 2])
  then show ?thesis by simp
qed

lemma padStart2_no_minus: "CHR ''-'' \<notin> set (padStart2 (show_nat n))"
  using padStart2_digits [of n] by auto

lemma month_key_inj: "month_key y m = month_key y' m' \<longleftrightarrow> y = y' \<and> m = m'"
proof
  assume "month_key y m = month_key y' m'"
  then have "show_int y @ CHR ''-'' # padStart2 (show_nat m) =
             show_int y' @ CHR ''-'' # padStart2 (show_nat m')"
    by (simp add: month_key_def)
  from split_at_last_minus [OF this padStart2_no_minus padStart2_no_minus]
  show "y = y' \<and> m = m'"
    using show_int_inj padStart2_inj by blast
next
  assume "y = y' \<and> m = m'"
  then show "month_key y m = month_key y' m'" by simp
qed

lemma month_key_not_NaN: "month_key y m \<noteq> ''NaN-NaN''"
proof
  assume "month_key y m = ''NaN-NaN''"
  then have "show_int y @ CHR ''-'' # padStart2 (show_nat m) = ''NaN'' @ CHR ''-'' # ''NaN''"
    by (simp add: month_key_def)
  moreover have "CHR ''-'' \<notin> set ''NaN''" by simp
  ultimately have "padStart2 (show_nat m) = ''NaN''"
    using split_at_last_minus [OF _ padStart2_no_minus] by blast
  then have "CHR ''N'' \<in> set (padStart2 (show_nat m))" by simp
  with padStart2_digits [of m] show False by auto
qed

lemma month_key_not_Nil: "month_key y m \<noteq> []"
  by (simp add: month_key_def)

lemma formatMonth_month_key:
  "formatMonth rt (createdAt t) = month_key y m \<longleftrightarrow> created_in rt y m t"
proof (cases "createdAt t")
  case Invalid_Date
  then show ?thesis
    using month_key_not_NaN [of y m] by (auto simp: formatMonth_def created_in_def)
next
  case (Date n)
  have "formatMonth rt (Date n) = month_key (getFullYear rt n) (getMonth rt n + 1)"
    by (simp add: formatMonth_def month_key_def)
  with Date show ?thesis
    by (simp add: created_in_def month_key_inj)
qed

subsection \<open>The statistics of a month\<close>

lemma length_filter_status:
  "length (filter (\<lambda>t. P (status t)) xs) = size (filter_mset P (mset (map status xs)))"
  by (induction xs) simp_all

lemma getMonthlyStats_selection:
  "getMonthlyStats rt snapshot (Some (month_key y m)) w =
     (\<lparr>month = month_key y m,
       totalPackages = length (filter (created_in rt y m) snapshot),
       delivered = length (filter (\<lambda>t. status t = Delivered)
                             (filter (created_in rt y m) snapshot)),
       inTransit = length (filter (\<lambda>t. status t = In_transit \<or> status t = Out_for_delivery)
                             (filter (created_in rt y m) snapshot))\<rparr>, w)"
  by (simp add: getMonthlyStats_def month_key_not_Nil formatMonth_month_key)

text \<open>
  Claim C5. For a target month given as the key \<open>YYYY-MM\<close> of a year and a month,
  \<open>getMonthlyStats\<close> selects the trackings of the snapshot whose \<open>createdAt\<close> has that
  year and that month in the local calendar, and reports the size of the selection, the
  number of its members that are delivered, and the number in transit or out for delivery;
  it reads no clock. For trackings created in the month whose statuses are delivered,
  in transit, out for delivery and pending, in any order, the counts are 4, 1 and 2.
\<close>

theorem getMonthlyStats_target_month:
  "getMonthlyStats rt snapshot (Some (month_key y m)) w =
     (\<lparr>month = month_key y m,
       totalPackages = length (filter (created_in rt y m) snapshot),
       delivered = length (filter (\<lambda>t. status t = Delivered)
                             (filter (created_in rt y m) snapshot)),
       inTransit = length (filter (\<lambda>t. status t = In_transit \<or> status t = Out_for_delivery)
                             (filter (created_in rt y m) snapshot))\<rparr>, w) \<and>
   ((\<forall>t \<in> set snapshot. created_in rt y m t) \<and>
    mset (map status snapshot) = {#Delivered, In_transit, Out_for_delivery, Pending#} \<longrightarrow>
      fst (getMonthlyStats rt snapshot (Some (month_key y m)) w) =
        \<lparr>month = month_key y m, totalPackages = 4, delivered = 1, inTransit = 2\<rparr>)"
proof (intro conjI impI)
  show "getMonthlyStats rt snapshot (Some (month_key y m)) w =
     (\<lparr>month = month_key y m,
       totalPackages = length (filter (created_in rt y m) snapshot),
       delivered = length (filter (\<lambda>t. status t = Delivered)
                             (filter (created_in rt y m) snapshot)),
       inTransit = length (filter (\<lambda>t. status t = In_transit \<or> status t = Out_for_delivery)
                             (filter (created_in rt y m) snapshot))\<rparr>, w)"
    by (rule getMonthlyStats_selection)
next
  assume ex: "(\<forall>t \<in> set snapshot. created_in rt y m t) \<and>
    mset (map status snapshot) = {#Delivered, In_transit, Out_for_delivery, Pending#}"
  then have sel: "filter (created_in rt y m) snapshot = snapshot"
    by simp
  from ex have sts: "mset (map status snapshot) =
      {#Delivered, In_transit, Out_for_delivery, Pending#}"
    by simp
  have "size (mset (map status snapshot)) =
          size {#Delivered, In_transit, Out_for_delivery, Pending#}"
    by (simp only: sts)
  then have n: "length snapshot = 4"
    by simp
  have img: "image_mset status (mset snapshot) =
      {#Delivered, In_transit, Out_for_delivery, Pending#}"
    using sts by simp
  have d: "length (filter (\<lambda>t. status t = Delivered) snapshot) = 1"
    by (simp add: length_filter_status [of "\<lambda>s. s = Delivered"] img)
  have i: "length (filter (\<lambda>t. status t = In_transit \<or> status t = Out_for_delivery) snapshot) = 2"
    by (simp add: length_filter_status [of "\<lambda>s. s = In_transit \<or> s = Out_for_delivery"] img)
  show "fst (getMonthlyStats rt snapshot (Some (month_key y m)) w) =
        \<lparr>month = month_key y m, totalPackages = 4, delivered = 1, inTransit = 2\<rparr>"
    by (simp add: getMonthlyStats_selection sel n d i)
qed

lemma utc_january:
  "utc_getFullYear 1767225600000 = 2026" "utc_getMonth 1767225600000 = 0"
  "utc_getFullYear 1768000000000 = 2026" "utc_getMonth 1768000000000 = 0"
  "utc_getFullYear 1769067924000 = 2026" "utc_getMonth 1769067924000 = 0"
  "utc_getFullYear 1769903999999 = 2026" "utc_getMonth 1769903999999 = 0"
  by code_simp+

lemma created_in_january:
  "created_in (reference_runtime offline) 2026 1 (t\<lparr>createdAt := Date 1767225600000\<rparr>)"
  "created_in (reference_runtime offline) 2026 1 (t\<lparr>createdAt := Date 1768000000000\<rparr>)"
  "created_in (reference_runtime offline) 2026 1 (t\<lparr>createdAt := Date 1769067924000\<rparr>)"
  "created_in (reference_runtime offline) 2026 1 (t\<lparr>createdAt := Date 1769903999999\<rparr>)"
  by (simp_all add: created_in_def reference_runtime_def utc_january)

lemma month_key_january: "month_key 2026 1 = ''2026-01''"
  by code_simp

theorem getMonthlyStats_target_month_witness:
  "list_all (created_in (reference_runtime offline) 2026 1) january_snapshot \<and>
   mset (map status january_snapshot) = {#Delivered, In_transit, Out_for_delivery, Pending#} \<and>
   fst (getMonthlyStats (reference_runtime offline) january_snapshot (Some ''2026-01'')
          initial_world) =
     \<lparr>month = ''2026-01'', totalPackages = 4, delivered = 1, inTransit = 2\<rparr>"
proof -
  have first: "sample_tracking = sample_tracking\<lparr>createdAt := Date 1767225600000\<rparr>"
    by (simp add: sample_tracking_def)
  have "created_in (reference_runtime offline) 2026 1 sample_tracking"
    by (subst first) (rule created_in_january)
  moreover note created_in_january(2) [of "sample_tracking\<lparr>trackingNumber := ''TH0000000002'', status := In_transit\<rparr>"]
    created_in_january(3) [of "sample_tracking\<lparr>trackingNumber := ''TH0000000003'', status := Out_for_delivery\<rparr>"]
    created_in_january(4) [of "sample_tracking\<lparr>trackingNumber := ''TH0000000004'', status := Pending\<rparr>"]
  ultimately
  have all: "\<forall>t \<in> set january_snapshot. created_in (reference_runtime offline) 2026 1 t"
    unfolding january_snapshot_def by simp
  have sts: "mset (map status january_snapshot) =
      {#Delivered, In_transit, Out_for_delivery, Pending#}"
    by (simp add: january_snapshot_def sample_tracking_def)
  from getMonthlyStats_target_month
         [of "reference_runtime offline" january_snapshot 2026 1 initial_world] all sts
  have "fst (getMonthlyStats (reference_runtime offline) january_snapshot
               (Some (month_key 2026 1)) initial_world) =
          \<lparr>month = month_key 2026 1, totalPackages = 4, delivered = 1, inTransit = 2\<rparr>"
    by blast
  then have "fst (getMonthlyStats (reference_runtime offline) january_snapshot
               (Some ''2026-01'') initial_world) =
          \<lparr>month = ''2026-01'', totalPackages = 4, delivered = 1, inTransit = 2\<rparr>"
    by (simp only: month_key_january)
  with all sts show ?thesis
    by (simp only: list_all_iff)
qed

section \<open>Numbers: properties\<close>

subsection \<open>Powers of two\<close>

lemma pow2_powi: "pow2 e = 2 powi e"
  by (simp add: pow2_def power_int_def inverse_eq_divide power_one_over)

lemma pow2_pos: "0 < pow2 e"
  by (simp add: pow2_powi)

lemma pow2_add: "pow2 (a + b) = pow2 a * pow2 b"
  by (simp add: pow2_powi power_int_add)

lemma pow2_diff: "pow2 (a - b) = pow2 a / pow2 b"
  by (simp add: pow2_powi power_int_diff)

lemma pow2_nat: "0 \<le> e \<Longrightarrow> pow2 e = 2 ^ nat e"
  by (simp add: pow2_def)

lemma pow2_mono: "a \<le> b \<Longrightarrow> pow2 a \<le> pow2 b"
  by (simp add: pow2_powi power_int_increasing)

lemma pow2_less_imp: "pow2 a < pow2 b \<Longrightarrow> a < b"
  using pow2_mono [of b a] by (cases "a < b") simp_all

subsection \<open>The exponent and the rounding of the significand\<close>

lemma ilog2_lower:
  assumes "0 < x"
  shows "pow2 (ilog2 x) \<le> x"
proof -
  obtain p q where pq: "quotient_of x = (p, q)"
    by (cases "quotient_of x")
  then have q: "0 < q"
    by (rule quotient_of_denom_pos)
  from pq have x: "x = of_int p / of_int q"
    by (rule quotient_of_div)
  with assms q have p: "0 < p"
    by (simp add: zero_less_divide_iff)
  show ?thesis
  proof (cases "pow2 (bitlen p - bitlen q) \<le> x")
    case True
    then show ?thesis
      using pq by (simp add: ilog2_def)
  next
    case False
    from bitlen_bounds [OF p] have pl: "2 ^ nat (bitlen p - 1) \<le> p"
      by simp
    from bitlen_bounds [OF q] have qu: "q < 2 ^ nat (bitlen q)"
      by simp
    have bp: "1 \<le> bitlen p"
      using p by (simp add: bitlen_alt_def)
    have "pow2 (bitlen p - bitlen q - 1) = pow2 ((bitlen p - 1) - bitlen q)"
      by (simp add: algebra_simps)
    also have "\<dots> = pow2 (bitlen p - 1) / pow2 (bitlen q)"
      by (rule pow2_diff)
    also have "\<dots> = of_int (2 ^ nat (bitlen p - 1)) / of_int (2 ^ nat (bitlen q))"
      using bp bitlen_nonneg [of q] by (simp add: pow2_nat)
    also have "\<dots> \<le> of_int p / of_int q"
    proof (rule frac_le)
      show "(0::rat) \<le> of_int p" using p by simp
      show "(of_int (2 ^ nat (bitlen p - 1)) :: rat) \<le> of_int p"
        using pl by (simp only: of_int_le_iff)
      show "(0::rat) < of_int q" using q by simp
      show "(of_int q :: rat) \<le> of_int (2 ^ nat (bitlen q))"
        using qu by (simp only: of_int_le_iff)
    qed
    finally have "pow2 (bitlen p - bitlen q - 1) \<le> x"
      by (simp only: x)
    with False show ?thesis
      using pq by (simp add: ilog2_def)
  qed
qed

lemma round_ties_even_error: "\<bar>of_int (round_ties_even y) - y\<bar> \<le> 1 / 2"
proof -
  have "of_int \<lfloor>y\<rfloor> \<le> y" and "y < of_int \<lfloor>y\<rfloor> + 1"
    by linarith+
  then show ?thesis
    by (auto simp: round_ties_even_def Let_def abs_le_iff)
qed

lemma round_ties_even_of_int: "round_ties_even (of_int n) = n"
  by (simp add: round_ties_even_def)

subsection \<open>The error of a rounding, and the values that are not rounded\<close>

lemma binary64_error: "\<bar>binary64 x - x\<bar> \<le> \<bar>x\<bar> / 2 ^ 53"
proof (cases "x = 0")
  case True
  then show ?thesis by (simp add: binary64_def)
next
  case False
  define a where "a = \<bar>x\<bar>"
  define u where "u = pow2 (ilog2 a - 52)"
  define n where "n = round_ties_even (a / u)"
  have a: "0 < a" using False by (simp add: a_def)
  have u: "0 < u" by (simp add: u_def pow2_pos)
  have b: "binary64 x = sgn x * of_int n * u"
    using False by (simp add: binary64_def Let_def a_def u_def n_def)
  have "x = sgn x * a"
    by (simp add: a_def mult_sgn_abs)
  then have "binary64 x - x = sgn x * (of_int n * u - a)"
    using b by (simp add: algebra_simps)
  then have "\<bar>binary64 x - x\<bar> = \<bar>of_int n * u - a\<bar>"
    using False by (simp add: abs_mult abs_sgn_eq)
  also have "of_int n * u - a = u * (of_int n - a / u)"
    using u by (simp add: field_simps)
  also have "\<bar>u * (of_int n - a / u)\<bar> = u * \<bar>of_int n - a / u\<bar>"
    using u by (simp add: abs_mult)
  also have "\<dots> \<le> u * (1 / 2)"
    using u round_ties_even_error [of "a / u"] unfolding n_def
    by (intro mult_left_mono) simp_all
  also have "u * (1 / 2) = pow2 (ilog2 a) / 2 ^ 53"
    by (simp add: u_def pow2_diff pow2_nat)
  also have "\<dots> \<le> a / 2 ^ 53"
    using ilog2_lower [OF a] by (simp add: divide_right_mono)
  finally show ?thesis
    by (simp add: a_def)
qed

lemma binary64_exact:
  assumes "\<bar>m\<bar> < 2 ^ 53"
  shows "binary64 (of_int m * pow2 j) = of_int m * pow2 j"
proof (cases "m = 0")
  case True
  then show ?thesis by (simp add: binary64_def)
next
  case False
  define x where "x = (of_int m :: rat) * pow2 j"
  define a where "a = \<bar>x\<bar>"
  define e where "e = ilog2 a"
  define u where "u = pow2 (e - 52)"
  have x0: "x \<noteq> 0"
    using False pow2_pos [of j] by (simp add: x_def)
  have a_eq: "a = of_int \<bar>m\<bar> * pow2 j"
    using pow2_pos [of j] by (simp add: a_def x_def abs_mult)
  have a: "0 < a" using x0 by (simp add: a_def)
  have "pow2 e \<le> a"
    unfolding e_def using a by (rule ilog2_lower)
  also have "a < 2 ^ 53 * pow2 j"
  proof -
    have "(of_int \<bar>m\<bar> :: rat) < of_int (2 ^ 53)"
      using assms by (simp only: of_int_less_iff)
    then show ?thesis
      using pow2_pos [of j] by (simp add: a_eq)
  qed
  also have "2 ^ 53 * pow2 j = pow2 (53 + j)"
    by (simp add: pow2_add pow2_nat)
  finally have "e < 53 + j"
    by (rule pow2_less_imp)
  then have k: "0 \<le> j - (e - 52)"
    by simp
  have "a / u = of_int \<bar>m\<bar> * (pow2 j / pow2 (e - 52))"
    by (simp add: a_eq u_def)
  also have "pow2 j / pow2 (e - 52) = pow2 (j - (e - 52))"
    by (simp add: pow2_diff)
  also have "\<dots> = of_int (2 ^ nat (j - (e - 52)))"
    using k by (simp add: pow2_nat)
  finally have quot: "a / u = of_int (\<bar>m\<bar> * 2 ^ nat (j - (e - 52)))"
    by simp
  have "binary64 x = sgn x * of_int (round_ties_even (a / u)) * u"
    using x0 by (simp add: binary64_def Let_def a_def e_def u_def)
  also have "round_ties_even (a / u) = \<bar>m\<bar> * 2 ^ nat (j - (e - 52))"
    by (simp only: quot round_ties_even_of_int)
  also have "sgn x * of_int (\<bar>m\<bar> * 2 ^ nat (j - (e - 52))) * u = sgn x * (a / u) * u"
    by (simp only: quot)
  also have "\<dots> = sgn x * a"
    using pow2_pos [of "e - 52"] by (simp add: u_def)
  also have "\<dots> = x"
    by (simp add: a_def mult_sgn_abs)
  finally show ?thesis
    by (simp add: x_def)
qed

lemma binary64_of_int: "\<bar>m\<bar> < 2 ^ 53 \<Longrightarrow> binary64 (of_int m) = of_int m"
  using binary64_exact [of m 0] by (simp add: pow2_def)

lemma binary64_half: "\<bar>m\<bar> < 2 ^ 53 \<Longrightarrow> binary64 (of_int m / 2) = of_int m / 2"
  using binary64_exact [of m "- 1"] by (simp add: pow2_def)

subsection \<open>Rounding a quotient of integers\<close>

lemma quotient_split:
  assumes "0 < B"
  shows "(of_int A / of_int B :: rat) = of_int (A div B) + of_int (A mod B) / of_int B"
proof -
  have "B * (A div B) + A mod B = A"
    by simp
  then have "(of_int (B * (A div B) + A mod B) :: rat) = of_int A"
    by (simp only:)
  then have "(of_int A :: rat) = of_int B * of_int (A div B) + of_int (A mod B)"
    by (simp only: of_int_add of_int_mult)
  then have "(of_int A / of_int B :: rat) =
      (of_int B * of_int (A div B) + of_int (A mod B)) / of_int B"
    by (simp only:)
  also have "\<dots> = of_int (A div B) + of_int (A mod B) / of_int B"
    using assms by (simp add: add_divide_distrib)
  finally show ?thesis .
qed

lemma floor_gap:
  assumes "0 < B" and "A mod B \<noteq> 0"
  shows "of_int (A div B) + 1 / of_int B \<le> (of_int A / of_int B :: rat)"
    and "(of_int A / of_int B :: rat) + 1 / of_int B \<le> of_int (A div B) + 1"
proof -
  have lo: "1 \<le> A mod B"
    using assms(2) pos_mod_sign [OF assms(1), of A] by linarith
  have hi: "A mod B + 1 \<le> B"
    using pos_mod_bound [OF assms(1), of A] by linarith
  have b: "(0::rat) < of_int B"
    using assms by simp
  have "(1 :: rat) / of_int B \<le> of_int (A mod B) / of_int B"
    using lo b by (intro divide_right_mono) simp_all
  then show "of_int (A div B) + 1 / of_int B \<le> (of_int A / of_int B :: rat)"
    by (subst quotient_split [OF assms(1)]) simp
  have "(of_int (A mod B + 1) :: rat) \<le> of_int B"
    using hi by (simp only: of_int_le_iff)
  then have "(of_int (A mod B) + 1) / of_int B \<le> (of_int B :: rat) / of_int B"
    using b by (intro divide_right_mono) simp_all
  then have "of_int (A mod B) / of_int B + 1 / of_int B \<le> (1 :: rat)"
    using b by (simp add: add_divide_distrib)
  then show "(of_int A / of_int B :: rat) + 1 / of_int B \<le> of_int (A div B) + 1"
    by (subst quotient_split [OF assms(1)]) simp
qed

lemma floor_stable:
  fixes y r d :: rat
  assumes "of_int m + d \<le> r" and "r + d \<le> of_int m + 1" and "\<bar>y - r\<bar> < d"
  shows "\<lfloor>y\<rfloor> = m"
proof (rule floor_unique)
  show "of_int m \<le> y" using assms by linarith
  show "y < of_int m + 1" using assms by linarith
qed

lemma floor_near_integer:
  fixes y d :: rat
  assumes "\<bar>y - of_int k\<bar> \<le> d" and "d < 1"
  shows "\<lfloor>y\<rfloor> = k \<or> \<lfloor>y\<rfloor> = k - 1"
proof (cases "of_int k \<le> y")
  case True
  have "\<lfloor>y\<rfloor> = k"
  proof (rule floor_unique)
    show "of_int k \<le> y" by (rule True)
    show "y < of_int k + 1" using assms by linarith
  qed
  then show ?thesis ..
next
  case False
  have "\<lfloor>y\<rfloor> = k - 1"
  proof (rule floor_unique)
    show "of_int (k - 1) \<le> y" using assms by simp
    show "y < of_int (k - 1) + 1" using False by simp
  qed
  then show ?thesis ..
qed

lemma halfway_integer:
  assumes "x + 1 / 2 = of_int k"
  shows "halfway x" and "round_half_up x = k"
proof -
  from assms have "x = of_int k - 1 / 2"
    by linarith
  then have x: "x = of_int (k - 1) + 1 / 2"
    by simp
  have "\<lfloor>x\<rfloor> = k - 1"
  proof (rule floor_unique)
    show "of_int (k - 1) \<le> x" by (simp add: x)
    show "x < of_int (k - 1) + 1" by (simp add: x)
  qed
  then show "halfway x"
    by (simp add: halfway_def) (simp add: x)
  show "round_half_up x = k"
    by (simp add: round_half_up_def assms)
qed

text \<open>
  The percentage of a group: the quotient is rounded, the product is rounded, and
  \<open>Math.round\<close> takes the nearest integer. The result is the exact share rounded, unless
  the exact share lies halfway between two integers; there the two roundings decide
  between the integer above and the one below.
\<close>

lemma percentage_error:
  fixes c t :: nat
  assumes "0 < t" and "c \<le> t"
  shows "\<bar>binary64 (binary64 (of_nat c / of_nat t) * 100) - of_nat c / of_nat t * 100\<bar>
           \<le> 300 / 2 ^ 53"
proof -
  define x :: rat where "x = of_nat c / of_nat t"
  define y1 where "y1 = binary64 x"
  define y2 where "y2 = binary64 (y1 * 100)"
  have x0: "0 \<le> x" by (simp add: x_def)
  have x1: "x \<le> 1" using assms by (simp add: x_def)
  have e1: "\<bar>y1 - x\<bar> \<le> 1 / 2 ^ 53"
  proof -
    have "\<bar>y1 - x\<bar> \<le> \<bar>x\<bar> / 2 ^ 53"
      unfolding y1_def by (rule binary64_error)
    also have "\<dots> \<le> 1 / 2 ^ 53"
      using x0 x1 by (simp add: divide_right_mono)
    finally show ?thesis .
  qed
  moreover have "(1 :: rat) / 2 ^ 53 \<le> 1"
    by simp
  ultimately have y1: "\<bar>y1\<bar> \<le> 2"
    using x0 x1 by linarith
  have e2: "\<bar>y2 - y1 * 100\<bar> \<le> 200 / 2 ^ 53"
  proof -
    have "\<bar>y2 - y1 * 100\<bar> \<le> \<bar>y1 * 100\<bar> / 2 ^ 53"
      unfolding y2_def by (rule binary64_error)
    also have "\<dots> \<le> 200 / 2 ^ 53"
      using y1 by (simp add: abs_mult divide_right_mono)
    finally show ?thesis .
  qed
  have "y2 - x * 100 = (y2 - y1 * 100) + 100 * (y1 - x)"
    by (simp add: algebra_simps)
  then have tri: "\<bar>y2 - x * 100\<bar> \<le> \<bar>y2 - y1 * 100\<bar> + \<bar>100 * (y1 - x)\<bar>"
    by (simp only: abs_triangle_ineq)
  have m: "\<bar>100 * (y1 - x)\<bar> = 100 * \<bar>y1 - x\<bar>"
    by (subst abs_mult) simp
  have "100 * \<bar>y1 - x\<bar> \<le> 100 * (1 / 2 ^ 53)"
    using e1 by (intro mult_left_mono) simp_all
  with tri m e2 have "\<bar>y2 - x * 100\<bar> \<le> 200 / 2 ^ 53 + 100 * (1 / 2 ^ 53)"
    by linarith
  also have "\<dots> = 300 / 2 ^ 53"
    by simp
  finally show ?thesis
    by (simp add: x_def y1_def y2_def)
qed

lemma percentage_rounding:
  fixes c t :: nat
  assumes t: "0 < t" and bound: "t < 2 ^ 32" and c: "c \<le> t"
  shows "\<not> halfway (of_nat c / of_nat t * 100) \<Longrightarrow>
           Math_round (binary64 (binary64 (of_nat c / of_nat t) * 100)) =
             round_half_up (of_nat c / of_nat t * 100)"
    and "Math_round (binary64 (binary64 (of_nat c / of_nat t) * 100)) =
             round_half_up (of_nat c / of_nat t * 100) \<or>
         Math_round (binary64 (binary64 (of_nat c / of_nat t) * 100)) =
             round_half_up (of_nat c / of_nat t * 100) - 1"
proof -
  define z :: rat where "z = of_nat c / of_nat t * 100"
  define y where "y = binary64 (binary64 (of_nat c / of_nat t) * 100)"
  define A where "A = 200 * int c + int t"
  define B where "B = 2 * int t"
  have B: "0 < B" using t by (simp add: B_def)
  have err: "\<bar>y - z\<bar> \<le> 300 / 2 ^ 53"
    unfolding y_def z_def using t c by (rule percentage_error)
  have r: "z + 1 / 2 = of_int A / of_int B"
    using t by (simp add: z_def A_def B_def field_simps)
  have small: "(300 :: rat) / 2 ^ 53 < 1 / of_int B"
  proof -
    have "B < 2 ^ 33"
      using bound by (simp add: B_def)
    then have "(of_int B :: rat) < of_int (2 ^ 33)"
      by (simp only: of_int_less_iff)
    then have "(1 :: rat) / of_int (2 ^ 33) < 1 / of_int B"
      using B by (intro divide_strict_left_mono) simp_all
    moreover have "(300 :: rat) / 2 ^ 53 < 1 / of_int (2 ^ 33)"
      by simp
    ultimately show ?thesis by linarith
  qed
  have both: "(\<not> halfway z \<longrightarrow> Math_round y = round_half_up z) \<and>
              (Math_round y = round_half_up z \<or> Math_round y = round_half_up z - 1)"
  proof (cases "A mod B = 0")
    case False
    have "\<lfloor>y + 1 / 2\<rfloor> = A div B"
    proof (rule floor_stable)
      show "of_int (A div B) + 1 / of_int B \<le> z + 1 / 2"
        using floor_gap(1) [OF B False] by (simp only: r)
      show "z + 1 / 2 + 1 / of_int B \<le> of_int (A div B) + 1"
        using floor_gap(2) [OF B False] by (simp only: r)
      show "\<bar>y + 1 / 2 - (z + 1 / 2)\<bar> < 1 / of_int B"
        using err small by simp
    qed
    moreover have "\<lfloor>z + 1 / 2\<rfloor> = A div B"
      by (simp only: r floor_divide_of_int_eq)
    ultimately have "Math_round y = round_half_up z"
      by (simp add: Math_round_def round_half_up_def)
    then show ?thesis by simp
  next
    case True
    then have "A = B * (A div B)"
      using mult_div_mod_eq [of B A] by simp
    then have "(of_int A :: rat) = of_int B * of_int (A div B)"
      by (metis of_int_mult)
    then have k: "z + 1 / 2 = of_int (A div B)"
      using B by (simp add: r)
    from halfway_integer [OF k] have h: "halfway z" and up: "round_half_up z = A div B"
      by simp_all
    have "y + 1 / 2 - of_int (A div B) = y - z"
      using k by linarith
    then have "\<bar>y + 1 / 2 - of_int (A div B)\<bar> \<le> 300 / 2 ^ 53"
      using err by (simp only:)
    then have "\<lfloor>y + 1 / 2\<rfloor> = A div B \<or> \<lfloor>y + 1 / 2\<rfloor> = A div B - 1"
      by (rule floor_near_integer) simp
    with h up show ?thesis
      by (simp add: Math_round_def)
  qed
  from both show "\<not> halfway (of_nat c / of_nat t * 100) \<Longrightarrow>
           Math_round (binary64 (binary64 (of_nat c / of_nat t) * 100)) =
             round_half_up (of_nat c / of_nat t * 100)"
    by (simp add: y_def z_def)
  from both show "Math_round (binary64 (binary64 (of_nat c / of_nat t) * 100)) =
             round_half_up (of_nat c / of_nat t * 100) \<or>
         Math_round (binary64 (binary64 (of_nat c / of_nat t) * 100)) =
             round_half_up (of_nat c / of_nat t * 100) - 1"
    by (simp add: y_def z_def)
qed

text \<open>
  The average of a group whose transit days are whole and add up to less than \<open>2^52\<close>:
  the quotient is rounded and \<open>Math.round\<close> takes the nearest integer, which is the
  exact mean rounded.
\<close>

lemma mean_rounding:
  fixes S :: int and n :: nat
  assumes S0: "0 \<le> S" and S: "S < 2 ^ 52" and n: "0 < n"
  shows "Math_round (binary64 (of_int S / of_nat n)) = round_half_up (of_int S / of_nat n)"
proof -
  define q :: rat where "q = of_int S / of_nat n"
  define A where "A = 2 * S + int n"
  define B where "B = 2 * int n"
  have B: "0 < B" using n by (simp add: B_def)
  have q0: "0 \<le> q" using S0 by (simp add: q_def)
  have r: "q + 1 / 2 = of_int A / of_int B"
    using n by (simp add: q_def A_def B_def field_simps)
  have err: "\<bar>binary64 q - q\<bar> \<le> q / 2 ^ 53"
    using binary64_error [of q] q0 by simp
  show ?thesis
  proof (cases "A mod B = 0")
    case False
    have "(of_int S :: rat) < of_int (2 ^ 52)"
      using S by (simp only: of_int_less_iff)
    then have "(of_int S :: rat) / 2 ^ 53 < 1 / 2"
      by simp
    then have "(of_int S :: rat) / 2 ^ 53 / of_nat n < 1 / 2 / of_nat n"
      using n by (intro divide_strict_right_mono) simp_all
    then have small: "q / 2 ^ 53 < 1 / of_int B"
      by (simp add: q_def B_def)
    have "\<lfloor>binary64 q + 1 / 2\<rfloor> = A div B"
    proof (rule floor_stable)
      show "of_int (A div B) + 1 / of_int B \<le> q + 1 / 2"
        using floor_gap(1) [OF B False] by (simp only: r)
      show "q + 1 / 2 + 1 / of_int B \<le> of_int (A div B) + 1"
        using floor_gap(2) [OF B False] by (simp only: r)
      show "\<bar>binary64 q + 1 / 2 - (q + 1 / 2)\<bar> < 1 / of_int B"
        using err small by simp
    qed
    moreover have "\<lfloor>q + 1 / 2\<rfloor> = A div B"
      by (simp only: r floor_divide_of_int_eq)
    ultimately show ?thesis
      by (simp add: Math_round_def round_half_up_def q_def)
  next
    case True
    then have "A = B * (A div B)"
      using mult_div_mod_eq [of B A] by simp
    then have "(of_int A :: rat) = of_int B * of_int (A div B)"
      by (metis of_int_mult)
    then have k: "q + 1 / 2 = of_int (A div B)"
      using B by (simp add: r)
    then have "q = of_int (A div B) - 1 / 2"
      by linarith
    then have half: "q = of_int (2 * (A div B) - 1) / 2"
      by simp
    have "q \<le> of_int S"
    proof -
      have "(of_int S :: rat) / of_nat n \<le> of_int S / 1"
        using n S0 by (intro divide_left_mono) simp_all
      then show ?thesis by (simp add: q_def)
    qed
    also have "(of_int S :: rat) < of_int (2 ^ 52)"
      using S by (simp only: of_int_less_iff)
    finally have "of_int (2 * (A div B) - 1) / 2 < (of_int (2 ^ 52) :: rat)"
      by (simp only: half)
    then have "(of_int (2 * (A div B) - 1) :: rat) < of_int (2 ^ 53)"
      by simp
    then have up: "2 * (A div B) - 1 < 2 ^ 53"
      by (simp only: of_int_less_iff)
    have "(0 :: rat) \<le> of_int (2 * (A div B) - 1) / 2"
      using q0 by (simp only: half)
    then have "(of_int 0 :: rat) \<le> of_int (2 * (A div B) - 1)"
      by simp
    then have lo: "0 \<le> 2 * (A div B) - 1"
      by (simp only: of_int_le_iff)
    from lo up have "\<bar>2 * (A div B) - 1\<bar> < 2 ^ 53"
      by simp
    then have "binary64 q = q"
      unfolding half by (rule binary64_half)
    then show ?thesis
      by (simp add: Math_round_def round_half_up_def q_def)
  qed
qed

section \<open>Courier distribution: properties\<close>

subsection \<open>No tracking\<close>

text \<open>
  Claim C8. On a snapshot with no tracking, \<open>getCourierDistribution\<close> returns the empty
  list: no entry is made, so no percentage is computed from a zero total.
\<close>

theorem getCourierDistribution_empty:
  "getCourierDistribution [] = []"
  by (simp add: getCourierDistribution_def)

subsection \<open>The loop builds the table of the groups\<close>

lemma set_first_occurrences: "set (first_occurrences xs) = set xs"
  by (induction xs) auto

lemma distinct_first_occurrences: "distinct (first_occurrences xs)"
  by (induction xs) (auto simp: set_first_occurrences)

lemma first_occurrences_snoc:
  "first_occurrences (xs @ [x]) =
     (if x \<in> set xs then first_occurrences xs else first_occurrences xs @ [x])"
  by (induction xs) auto

lemma Map_get_table: "k \<in> set ks \<Longrightarrow> Map_get (map (\<lambda>c. (c, f c)) ks) k = Some (f k)"
  by (induction ks) (auto simp: Map_get_def)

lemma Map_get_absent: "k \<notin> set ks \<Longrightarrow> Map_get (map (\<lambda>c. (c, f c)) ks) k = None"
  by (induction ks) (auto simp: Map_get_def)

lemma Map_set_table:
  "k \<in> set ks \<Longrightarrow> distinct ks \<Longrightarrow>
     Map_set k v (map (\<lambda>c. (c, f c)) ks) = map (\<lambda>c. (c, if c = k then v else f c)) ks"
proof (induction ks)
  case Nil
  then show ?case by simp
next
  case (Cons a ks)
  show ?case
  proof (cases "a = k")
    case True
    with Cons.prems have "k \<notin> set ks" by simp
    then have "map (\<lambda>c. (c, if c = k then v else f c)) ks = map (\<lambda>c. (c, f c)) ks"
      by (intro map_cong) auto
    with True show ?thesis by simp
  next
    case False
    with Cons show ?thesis by simp
  qed
qed

lemma Map_set_absent:
  "k \<notin> set ks \<Longrightarrow> Map_set k v (map (\<lambda>c. (c, f c)) ks) = map (\<lambda>c. (c, f c)) ks @ [(k, v)]"
  by (induction ks) auto

lemma members_snoc:
  "members c (seen @ [t]) = members c seen @ (if code (carrier t) = c then [t] else [])"
  by (simp add: members_def)

lemma members_not_Nil: "c \<in> set (map (\<lambda>t. code (carrier t)) seen) \<Longrightarrow> members c seen \<noteq> []"
  by (auto simp: members_def filter_empty_conv)

lemma members_Nil: "c \<notin> set (map (\<lambda>t. code (carrier t)) seen) \<Longrightarrow> members c seen = []"
  by (auto simp: members_def filter_empty_conv)

lemma qualifying_snoc:
  "qualifying c (seen @ [t]) =
     qualifying c seen @ (if code (carrier t) = c \<and> qualifies t then [t] else [])"
  by (simp add: qualifying_def members_def)

lemma transit_total_single:
  "transit_total [t] = (if qualifies t then transitDays_or_0 t else 0)"
  by (simp add: transit_total_def)

lemma transit_total_snoc:
  "ms \<noteq> [] \<Longrightarrow> transit_total (ms @ [t]) = accumulate (transit_total ms) t"
  by (cases ms) (simp_all add: transit_total_def)

lemma summary_other:
  "code (carrier t) \<noteq> c \<Longrightarrow> summary (seen @ [t]) c = summary seen c"
  by (simp add: summary_def members_snoc qualifying_snoc)

lemma summary_existing:
  assumes "code (carrier t) \<in> set (map (\<lambda>t. code (carrier t)) seen)"
  shows "summary (seen @ [t]) (code (carrier t)) =
           (summary seen (code (carrier t)))
             \<lparr>counts_count := counts_count (summary seen (code (carrier t))) + 1,
              totalTransitDays :=
                (if qualifies t
                 then binary64 (totalTransitDays (summary seen (code (carrier t))) +
                                transitDays_or_0 t)
                 else totalTransitDays (summary seen (code (carrier t)))),
              deliveredCount :=
                (if qualifies t then deliveredCount (summary seen (code (carrier t))) + 1
                 else deliveredCount (summary seen (code (carrier t))))\<rparr>"
  using members_not_Nil [OF assms]
  by (simp add: summary_def members_snoc qualifying_snoc transit_total_snoc accumulate_def)

lemma summary_new:
  assumes "code (carrier t) \<notin> set (map (\<lambda>t. code (carrier t)) seen)"
  shows "summary (seen @ [t]) (code (carrier t)) =
           \<lparr>counts_name = name (carrier t),
            counts_count = 1,
            totalTransitDays = (if qualifies t then transitDays_or_0 t else 0),
            deliveredCount = (if qualifies t then 1 else 0)\<rparr>"
  using members_Nil [OF assms]
  by (simp add: summary_def members_snoc qualifying_snoc transit_total_single qualifying_def)

lemma count_tracking_step: "count_tracking t (counts_after seen) = counts_after (seen @ [t])"
proof (cases "code (carrier t) \<in> set (map (\<lambda>t. code (carrier t)) seen)")
  case True
  let ?ks = "first_occurrences (map (\<lambda>t. code (carrier t)) seen)"
  let ?k = "code (carrier t)"
  have in_ks: "?k \<in> set ?ks"
    using True by (simp add: set_first_occurrences)
  have get: "Map_get (counts_after seen) ?k = Some (summary seen ?k)"
    unfolding counts_after_def using in_ks by (rule Map_get_table)
  have ks: "first_occurrences (map (\<lambda>t. code (carrier t)) (seen @ [t])) = ?ks"
    using True by (simp add: first_occurrences_snoc)
  have rows: "map (\<lambda>c. (c, if c = ?k then summary (seen @ [t]) ?k else summary seen c)) ?ks =
              map (\<lambda>c. (c, summary (seen @ [t]) c)) ?ks"
    by (intro map_cong) (auto simp: summary_other)
  have "count_tracking t (counts_after seen) =
          Map_set ?k (summary (seen @ [t]) ?k) (counts_after seen)"
    by (simp add: count_tracking_def get summary_existing [OF True])
  also have "\<dots> = map (\<lambda>c. (c, if c = ?k then summary (seen @ [t]) ?k else summary seen c)) ?ks"
    unfolding counts_after_def
    using in_ks distinct_first_occurrences by (rule Map_set_table)
  also have "\<dots> = counts_after (seen @ [t])"
    by (simp only: rows counts_after_def ks)
  finally show ?thesis .
next
  case False
  let ?ks = "first_occurrences (map (\<lambda>t. code (carrier t)) seen)"
  let ?k = "code (carrier t)"
  have out_ks: "?k \<notin> set ?ks"
    using False by (simp add: set_first_occurrences)
  have get: "Map_get (counts_after seen) ?k = None"
    unfolding counts_after_def using out_ks by (rule Map_get_absent)
  have ks: "first_occurrences (map (\<lambda>t. code (carrier t)) (seen @ [t])) = ?ks @ [?k]"
    using False by (simp add: first_occurrences_snoc)
  have "summary seen c = summary (seen @ [t]) c" if "c \<in> set ?ks" for c
  proof -
    from that out_ks have "code (carrier t) \<noteq> c" by auto
    then show ?thesis by (simp add: summary_other)
  qed
  then have rows:
    "map (\<lambda>c. (c, summary seen c)) ?ks = map (\<lambda>c. (c, summary (seen @ [t]) c)) ?ks"
    by (intro map_cong) auto
  have "count_tracking t (counts_after seen) =
          Map_set ?k (summary (seen @ [t]) ?k) (counts_after seen)"
    by (simp add: count_tracking_def get summary_new [OF False])
  also have "\<dots> = map (\<lambda>c. (c, summary seen c)) ?ks @ [(?k, summary (seen @ [t]) ?k)]"
    unfolding counts_after_def using out_ks by (rule Map_set_absent)
  also have "\<dots> = counts_after (seen @ [t])"
    by (simp only: rows counts_after_def ks) simp
  finally show ?thesis .
qed

lemma fold_count_tracking:
  "fold count_tracking rest (counts_after seen) = counts_after (seen @ rest)"
proof (induction rest arbitrary: seen)
  case Nil
  show ?case by simp
next
  case (Cons t rest)
  have "fold count_tracking (t # rest) (counts_after seen) =
          fold count_tracking rest (counts_after (seen @ [t]))"
    by (simp add: count_tracking_step)
  also have "\<dots> = counts_after ((seen @ [t]) @ rest)"
    by (rule Cons.IH)
  finally show ?case by simp
qed

lemma getCourierDistribution_table:
  "getCourierDistribution snapshot =
     map (distribution_entry (length snapshot)) (counts_after snapshot)"
proof -
  have empty: "counts_after [] = []"
    by (simp add: counts_after_def)
  then have "fold count_tracking snapshot [] = counts_after snapshot"
    using fold_count_tracking [of snapshot "[]"] by simp
  then show ?thesis
    by (cases "snapshot = []") (simp_all add: getCourierDistribution_def empty)
qed

subsection \<open>Sums of whole transit days are exact\<close>

lemma whole_of_int: "whole (of_int m)"
  by (simp add: whole_def)

lemma whole_obtain:
  assumes "whole x"
  obtains m where "x = of_int m"
  using assms unfolding whole_def by metis

lemma whole_add: "whole a \<Longrightarrow> whole b \<Longrightarrow> whole (a + b)"
proof -
  assume "whole a" and "whole b"
  then obtain i j where "a = of_int i" and "b = of_int j"
    by (metis whole_obtain)
  then have "a + b = of_int (i + j)"
    by simp
  then show ?thesis
    by (simp only: whole_of_int)
qed

lemma qualifying_sum_nonneg: "0 \<le> sum_list (map transitDays_or_0 (filter qualifies ts))"
  by (induction ts) (auto simp: qualifies_def)

lemma foldl_accumulate_exact:
  assumes "whole s" and "0 \<le> s"
    and "list_all (\<lambda>t. whole (transitDays_or_0 t)) (filter qualifies rest)"
    and "s + sum_list (map transitDays_or_0 (filter qualifies rest)) < 2 ^ 53"
  shows "foldl accumulate s rest = s + sum_list (map transitDays_or_0 (filter qualifies rest))"
  using assms
proof (induction rest arbitrary: s)
  case Nil
  show ?case by simp
next
  case (Cons t rest)
  show ?case
  proof (cases "qualifies t")
    case False
    with Cons.prems have "foldl accumulate s rest =
        s + sum_list (map transitDays_or_0 (filter qualifies rest))"
      by (intro Cons.IH) simp_all
    with False show ?thesis
      by (simp add: accumulate_def [of s t])
  next
    case True
    define s' where "s' = s + transitDays_or_0 t"
    from True have pos: "0 < transitDays_or_0 t"
      by (simp add: qualifies_def)
    from True Cons.prems(3) have "whole (transitDays_or_0 t)"
      by simp
    with Cons.prems(1) have w: "whole s'"
      unfolding s'_def by (rule whole_add)
    have nonneg: "0 \<le> s'"
      using Cons.prems(2) pos by (simp add: s'_def)
    have total: "s' + sum_list (map transitDays_or_0 (filter qualifies rest)) < 2 ^ 53"
      using Cons.prems(4) True by (simp add: s'_def add.assoc)
    then have below: "s' < 2 ^ 53"
      using qualifying_sum_nonneg [of rest] by linarith
    from w obtain m where m: "s' = of_int m"
      by (rule whole_obtain)
    have "(of_int m :: rat) < of_int (2 ^ 53)" and "(of_int 0 :: rat) \<le> of_int m"
      using below nonneg by (simp_all add: m)
    then have "m < 2 ^ 53" and "0 \<le> m"
      by (simp_all only: of_int_less_iff of_int_le_iff)
    then have "\<bar>m\<bar> < 2 ^ 53"
      by simp
    then have exact: "binary64 s' = s'"
      unfolding m by (rule binary64_of_int)
    have "list_all (\<lambda>t. whole (transitDays_or_0 t)) (filter qualifies rest)"
      using Cons.prems(3) True by simp
    from Cons.IH [OF w nonneg this total]
    have "foldl accumulate s' rest =
        s' + sum_list (map transitDays_or_0 (filter qualifies rest))" .
    with True exact show ?thesis
      by (simp add: accumulate_def [of s t] s'_def add.assoc)
  qed
qed

lemma transit_total_exact:
  assumes "list_all (\<lambda>t. whole (transitDays_or_0 t)) (filter qualifies ms)"
    and "sum_list (map transitDays_or_0 (filter qualifies ms)) < 2 ^ 53"
  shows "transit_total ms = sum_list (map transitDays_or_0 (filter qualifies ms))"
proof (cases ms)
  case Nil
  then show ?thesis by (simp add: transit_total_def)
next
  case (Cons t rest)
  define s where "s = (if qualifies t then transitDays_or_0 t else 0)"
  have split: "sum_list (map transitDays_or_0 (filter qualifies ms)) =
      s + sum_list (map transitDays_or_0 (filter qualifies rest))"
    by (simp add: Cons s_def)
  have w: "whole s"
    using assms(1) by (auto simp: Cons s_def whole_def split: if_splits)
  have nonneg: "0 \<le> s"
    by (simp add: s_def qualifies_def)
  have rest: "list_all (\<lambda>t. whole (transitDays_or_0 t)) (filter qualifies rest)"
    using assms(1) by (auto simp: Cons split: if_splits)
  have "s + sum_list (map transitDays_or_0 (filter qualifies rest)) < 2 ^ 53"
    using assms(2) by (simp only: split)
  from foldl_accumulate_exact [OF w nonneg rest this]
  show ?thesis
    by (simp add: transit_total_def Cons s_def)
qed

subsection \<open>One entry of the distribution\<close>

lemma entry_fields:
  "carrierCode (distribution_entry n (c, summary snapshot c)) = c \<and>
   carrierName (distribution_entry n (c, summary snapshot c)) =
     name (carrier (hd (members c snapshot))) \<and>
   count (distribution_entry n (c, summary snapshot c)) = length (members c snapshot) \<and>
   percentage (distribution_entry n (c, summary snapshot c)) =
     Math_round (binary64 (binary64 (of_nat (length (members c snapshot)) / of_nat n) * 100)) \<and>
   (avgTransitDays (distribution_entry n (c, summary snapshot c)) = None \<longleftrightarrow>
      qualifying c snapshot = [])"
  by (simp add: distribution_entry_def summary_def)

lemma entry_percentage:
  assumes "c \<in> set (map (\<lambda>t. code (carrier t)) snapshot)" and "length snapshot < 2 ^ 32"
  shows "(\<not> halfway (share c snapshot) \<longrightarrow>
           percentage (distribution_entry (length snapshot) (c, summary snapshot c)) =
             round_half_up (share c snapshot)) \<and>
         (percentage (distribution_entry (length snapshot) (c, summary snapshot c)) =
             round_half_up (share c snapshot) \<or>
          percentage (distribution_entry (length snapshot) (c, summary snapshot c)) =
             round_half_up (share c snapshot) - 1)"
proof -
  have t: "0 < length snapshot"
    using assms(1) by (cases snapshot) simp_all
  have c: "length (members c snapshot) \<le> length snapshot"
    by (simp add: members_def)
  note r = percentage_rounding [OF t assms(2) c]
  show ?thesis
    using r by (simp add: share_def distribution_entry_def summary_def)
qed

lemma entry_average:
  assumes some: "qualifying c snapshot \<noteq> []"
    and days: "list_all (\<lambda>t. whole (transitDays_or_0 t)) (qualifying c snapshot)"
    and sum: "sum_list (map transitDays_or_0 (qualifying c snapshot)) < 2 ^ 52"
  shows "avgTransitDays (distribution_entry n (c, summary snapshot c)) =
           Some (round_half_up (mean_transitDays c snapshot))"
proof -
  define q where "q = qualifying c snapshot"
  define total where "total = sum_list (map transitDays_or_0 q)"
  have q: "q = filter qualifies (members c snapshot)"
    by (simp add: q_def qualifying_def)
  have "total < 2 ^ 53"
    using sum by (simp add: total_def q_def)
  then have exact: "transit_total (members c snapshot) = total"
    using days transit_total_exact [of "members c snapshot"]
    by (simp add: total_def q q_def [symmetric] qualifying_def)
  have "list_all (\<lambda>x. whole x) (map transitDays_or_0 q)"
    using days by (simp add: q_def list_all_iff)
  then have "whole (sum_list (map transitDays_or_0 q))"
  proof (induction q)
    case Nil
    show ?case by (simp add: whole_def)
  next
    case (Cons t q)
    then show ?case by (simp add: whole_add)
  qed
  then obtain S where S: "total = of_int S"
    unfolding total_def by (rule whole_obtain)
  have "0 \<le> total"
    unfolding total_def q by (rule qualifying_sum_nonneg)
  then have "(of_int 0 :: rat) \<le> of_int S"
    by (simp add: S)
  then have S0: "0 \<le> S"
    by (simp only: of_int_le_iff)
  have "(of_int S :: rat) < of_int (2 ^ 52)"
    using sum by (simp add: total_def [symmetric] q_def [symmetric] S)
  then have S52: "S < 2 ^ 52"
    by (simp only: of_int_less_iff)
  have n: "0 < length q"
    using some by (simp add: q_def)
  from mean_rounding [OF S0 S52 n]
  have "Math_round (binary64 (total / of_nat (length q))) =
          round_half_up (total / of_nat (length q))"
    by (simp only: S)
  then show ?thesis
    using n
    by (simp add: distribution_entry_def summary_def exact mean_transitDays_def
          q_def [symmetric] total_def [symmetric])
qed

subsection \<open>The distribution, entry by entry\<close>

lemma getCourierDistribution_codes:
  "map carrierCode (getCourierDistribution snapshot) =
     first_occurrences (map (\<lambda>t. code (carrier t)) snapshot)"
proof -
  have "map (carrierCode \<circ> (\<lambda>c. distribution_entry (length snapshot) (c, summary snapshot c))) ks
          = ks" for ks
    by (induction ks) (simp_all add: entry_fields)
  then show ?thesis
    by (simp add: getCourierDistribution_table counts_after_def comp_def)
qed

lemma getCourierDistribution_entries:
  assumes "e \<in> set (getCourierDistribution snapshot)"
  shows "carrierCode e \<in> set (map (\<lambda>t. code (carrier t)) snapshot) \<and>
         e = distribution_entry (length snapshot) (carrierCode e, summary snapshot (carrierCode e))"
proof -
  from assms obtain c where c: "c \<in> set (map (\<lambda>t. code (carrier t)) snapshot)"
    and e: "e = distribution_entry (length snapshot) (c, summary snapshot c)"
    by (auto simp: getCourierDistribution_table counts_after_def set_first_occurrences)
  from e have "carrierCode e = c"
    by (simp add: entry_fields)
  with c e show ?thesis by simp
qed

subsection \<open>Three trackings of two carriers\<close>

lemma mset_three:
  assumes "mset xs = {#a, b, c#}"
  shows "xs \<in> set [[a, b, c], [a, c, b], [b, a, c], [b, c, a], [c, a, b], [c, b, a]]"
proof -
  from assms have "length xs = 3"
    by (metis size_mset size_add_mset size_empty numeral_3_eq_3)
  then obtain x y z where xs: "xs = [x, y, z]"
    by (metis length_0_conv length_Suc_conv numeral_3_eq_3)
  with assms have "{#x, y, z#} = {#a, b, c#}" by simp
  then show ?thesis
    unfolding xs by (auto simp: add_eq_conv_ex)
qed

lemma rounded_shares:
  "Math_round (binary64 (binary64 (2 / 3) * 100)) = 67"
  "Math_round (binary64 (binary64 (1 / 3) * 100)) = 33"
  by code_simp+

lemma three_trackings_counts:
  assumes "carrier a2 = carrier a1" and "code (carrier b) \<noteq> code (carrier a1)"
    and "xs \<in> set [[a1, a2, b], [a1, b, a2], [a2, a1, b], [a2, b, a1], [b, a1, a2], [b, a2, a1]]"
  shows "mset (map (\<lambda>e. (carrierCode e, carrierName e, count e, percentage e))
                (getCourierDistribution xs)) =
     {#(code (carrier a1), name (carrier a1), 2, 67),
       (code (carrier b), name (carrier b), 1, 33)#}"
proof -
  note defs = getCourierDistribution_table counts_after_def distribution_entry_def summary_def
    members_def rounded_shares
  from assms(3) consider "xs = [a1, a2, b]" | "xs = [a1, b, a2]" | "xs = [a2, a1, b]"
    | "xs = [a2, b, a1]" | "xs = [b, a1, a2]" | "xs = [b, a2, a1]"
    by auto
  then show ?thesis
  proof cases
    case 1
    with assms(1,2) show ?thesis by (simp add: defs)
  next
    case 2
    with assms(1,2) show ?thesis by (simp add: defs)
  next
    case 3
    with assms(1,2) show ?thesis by (simp add: defs)
  next
    case 4
    with assms(1,2) show ?thesis by (simp add: defs)
  next
    case 5
    with assms(1,2) show ?thesis by (simp add: defs)
  next
    case 6
    with assms(1,2) show ?thesis by (simp add: defs)
  qed
qed

subsection \<open>Trackings saved one after the other\<close>

lemma getTrackings_fold_saveTracking:
  assumes "distinct (map trackingNumber ts)"
  shows "getTrackings (fold saveTracking ts None) =
           map (\<lambda>t. rehydrateTracking (stringify_tracking t)) ts"
  using assms
proof (induction ts rule: rev_induct)
  case Nil
  show ?case by (simp add: getTrackings_def)
next
  case (snoc t ts)
  from snoc.prems have d: "distinct (map trackingNumber ts)"
    and fresh: "trackingNumber t \<notin> set (map trackingNumber ts)"
    by simp_all
  from snoc.IH [OF d]
  have read: "getTrackings (fold saveTracking ts None) =
      map (\<lambda>t. rehydrateTracking (stringify_tracking t)) ts" .
  have "trackingNumber x \<noteq> trackingNumber t"
    if "x \<in> set (map (\<lambda>t. rehydrateTracking (stringify_tracking t)) ts)" for x
  proof -
    from that obtain y where y: "y \<in> set ts"
      and x: "x = rehydrateTracking (stringify_tracking y)"
      by auto
    from y have "trackingNumber y \<in> set (map trackingNumber ts)"
      by simp
    with fresh have "trackingNumber y \<noteq> trackingNumber t"
      by metis
    then show ?thesis
      by (simp add: x rehydrateTracking_trackingNumber)
  qed
  then have "findIndex (\<lambda>x. trackingNumber x = trackingNumber t)
          (getTrackings (fold saveTracking ts None)) = None"
    unfolding findIndex_None read by blast
  from saveTracking_fresh [OF this] show ?case
    by (simp add: read)
qed

lemma stored_three_trackings:
  assumes "mset saved = {#a1, a2, b#}" and "distinct (map trackingNumber saved)"
    and "carrier a2 = carrier a1" and "code (carrier b) \<noteq> code (carrier a1)"
  shows "mset (map (\<lambda>e. (carrierCode e, carrierName e, count e, percentage e))
                (getCourierDistribution (getTrackings (fold saveTracking saved None)))) =
     {#(code (carrier a1), name (carrier a1), 2, 67),
       (code (carrier b), name (carrier b), 1, 33)#}"
proof -
  let ?r = "\<lambda>t. rehydrateTracking (stringify_tracking t)"
  have car: "carrier (?r t) = carrier t" for t
    by (simp add: rehydrateTracking_def stringify_tracking_def)
  from mset_three [OF assms(1)]
  have "map ?r saved \<in> set [[?r a1, ?r a2, ?r b], [?r a1, ?r b, ?r a2], [?r a2, ?r a1, ?r b],
                              [?r a2, ?r b, ?r a1], [?r b, ?r a1, ?r a2], [?r b, ?r a2, ?r a1]]"
    by auto
  moreover have "carrier (?r a2) = carrier (?r a1)"
    and "code (carrier (?r b)) \<noteq> code (carrier (?r a1))"
    using assms(3,4) by (simp_all add: car)
  ultimately have "mset (map (\<lambda>e. (carrierCode e, carrierName e, count e, percentage e))
                (getCourierDistribution (map ?r saved))) =
     {#(code (carrier (?r a1)), name (carrier (?r a1)), 2, 67),
       (code (carrier (?r b)), name (carrier (?r b)), 1, 33)#}"
    using three_trackings_counts [of "?r a2" "?r a1" "?r b" "map ?r saved"] by blast
  then show ?thesis
    by (simp only: car getTrackings_fold_saveTracking [OF assms(2)])
qed

lemma stored_never_qualifies: "t \<in> set (getTrackings store) \<Longrightarrow> \<not> qualifies t"
  by (simp add: qualifies_def transitDays_or_0_def getTrackings_transitDays)

text \<open>
  What the storage service reads never has transit days, so no entry of the distribution
  of stored trackings has an average.
\<close>

lemma stored_distribution_no_average:
  assumes "e \<in> set (getCourierDistribution (getTrackings store))"
  shows "avgTransitDays e = None"
proof -
  have "qualifying c (getTrackings store) = []" for c
    by (auto simp: qualifying_def filter_empty_conv members_def stored_never_qualifies)
  moreover from getCourierDistribution_entries [OF assms]
  have "e = distribution_entry (length (getTrackings store))
              (carrierCode e, summary (getTrackings store) (carrierCode e))"
    by simp
  ultimately show ?thesis
    using entry_fields [of "length (getTrackings store)" "carrierCode e" "getTrackings store"]
    by simp
qed

subsection \<open>The claim about the distribution\<close>

text \<open>
  Claim C3, as stated, fails. Forty trackings are saved, twenty-three of them of one
  carrier: its share of the total is exactly 57.5, which rounds to 58, upwards and to
  even alike, and \<open>getCourierDistribution\<close> reports 57 percent.
\<close>

theorem percentage_halfway_counterexample:
  "map (\<lambda>e. (carrierCode e, count e, percentage e))
     (getCourierDistribution (getTrackings (fold saveTracking fleet None))) =
     [(''kerry'', 23, 57), (''flash'', 17, 43)] \<and>
   share ''kerry'' (getTrackings (fold saveTracking fleet None)) = 23 / 40 * 100 \<and>
   round_half_up (23 / 40 * 100) = 58 \<and>
   round_ties_even (23 / 40 * 100) = 58"
  by (intro conjI) code_simp+

text \<open>
  Claim C3, as amended. For a snapshot of fewer than \<open>2^32\<close> trackings,
  \<open>getCourierDistribution\<close> returns one entry per carrier code, in the order of first
  occurrence, with the name of the first tracking of that code and the number of trackings
  of that code. The percentage is the share \<open>groupCount / totalCount \<times> 100\<close> rounded to
  the nearest integer, except that for a share exactly halfway between two integers it is
  the integer above or the one below. The average is absent exactly when no member of the
  group is delivered with positive transit days; when the transit days of those members
  are whole numbers that add up to less than \<open>2^52\<close>, it is their mean rounded to the
  nearest integer. For three trackings with different tracking numbers saved in any order,
  two delivered ones of one carrier with 2 and 4 transit days and one in transit of
  another carrier with 0 transit days, the distribution of the stored trackings has the
  entries count 2, 67 percent and count 1, 33 percent.
\<close>

theorem getCourierDistribution_by_carrier:
  "(length snapshot < 2 ^ 32 \<longrightarrow>
      map carrierCode (getCourierDistribution snapshot) =
        first_occurrences (map (\<lambda>t. code (carrier t)) snapshot) \<and>
      (\<forall>e \<in> set (getCourierDistribution snapshot).
         carrierName e = name (carrier (hd (members (carrierCode e) snapshot))) \<and>
         count e = length (members (carrierCode e) snapshot) \<and>
         (\<not> halfway (share (carrierCode e) snapshot) \<longrightarrow>
            percentage e = round_half_up (share (carrierCode e) snapshot)) \<and>
         (percentage e = round_half_up (share (carrierCode e) snapshot) \<or>
          percentage e = round_half_up (share (carrierCode e) snapshot) - 1) \<and>
         (avgTransitDays e = None \<longleftrightarrow> qualifying (carrierCode e) snapshot = []) \<and>
         (qualifying (carrierCode e) snapshot \<noteq> [] \<and>
          list_all (\<lambda>t. whole (transitDays_or_0 t)) (qualifying (carrierCode e) snapshot) \<and>
          sum_list (map transitDays_or_0 (qualifying (carrierCode e) snapshot)) < 2 ^ 52 \<longrightarrow>
            avgTransitDays e =
              Some (round_half_up (mean_transitDays (carrierCode e) snapshot))))) \<and>
   (mset saved = {#a1, a2, b#} \<and> distinct (map trackingNumber saved) \<and>
    carrier a2 = carrier a1 \<and> code (carrier b) \<noteq> code (carrier a1) \<and>
    status a1 = Delivered \<and> transitDays a1 = Some 2 \<and>
    status a2 = Delivered \<and> transitDays a2 = Some 4 \<and>
    status b = In_transit \<and> transitDays b = Some 0 \<longrightarrow>
      mset (map (\<lambda>e. (carrierCode e, carrierName e, count e, percentage e))
             (getCourierDistribution (getTrackings (fold saveTracking saved None)))) =
        {#(code (carrier a1), name (carrier a1), 2, 67),
          (code (carrier b), name (carrier b), 1, 33)#})"
proof (intro conjI impI ballI)
  show "map carrierCode (getCourierDistribution snapshot) =
        first_occurrences (map (\<lambda>t. code (carrier t)) snapshot)"
    by (rule getCourierDistribution_codes)
next
  fix e
  assume len: "length snapshot < 2 ^ 32" and e: "e \<in> set (getCourierDistribution snapshot)"
  define c where "c = carrierCode e"
  from getCourierDistribution_entries [OF e]
  have c: "c \<in> set (map (\<lambda>t. code (carrier t)) snapshot)"
    and entry: "e = distribution_entry (length snapshot) (c, summary snapshot c)"
    by (simp_all add: c_def)
  note fields = entry_fields [of "length snapshot" c snapshot, folded entry]
  note pct = entry_percentage [OF c len, folded entry]
  show "carrierName e = name (carrier (hd (members (carrierCode e) snapshot)))"
    using fields by (simp add: c_def)
  show "count e = length (members (carrierCode e) snapshot)"
    using fields by (simp add: c_def)
  show "percentage e = round_half_up (share (carrierCode e) snapshot)"
    if "\<not> halfway (share (carrierCode e) snapshot)"
    using pct that by (simp add: c_def)
  show "percentage e = round_half_up (share (carrierCode e) snapshot) \<or>
        percentage e = round_half_up (share (carrierCode e) snapshot) - 1"
    using pct by (simp add: c_def)
  show "(avgTransitDays e = None) = (qualifying (carrierCode e) snapshot = [])"
    using fields by (simp add: c_def)
  show "avgTransitDays e = Some (round_half_up (mean_transitDays (carrierCode e) snapshot))"
    if "qualifying (carrierCode e) snapshot \<noteq> [] \<and>
        list_all (\<lambda>t. whole (transitDays_or_0 t)) (qualifying (carrierCode e) snapshot) \<and>
        sum_list (map transitDays_or_0 (qualifying (carrierCode e) snapshot)) < 2 ^ 52"
  proof -
    from that have "qualifying c snapshot \<noteq> []"
      and "list_all (\<lambda>t. whole (transitDays_or_0 t)) (qualifying c snapshot)"
      and "sum_list (map transitDays_or_0 (qualifying c snapshot)) < 2 ^ 52"
      by (simp_all add: c_def)
    from entry_average [OF this, of "length snapshot", folded entry]
    show ?thesis by (simp add: c_def)
  qed
next
  assume ex: "mset saved = {#a1, a2, b#} \<and> distinct (map trackingNumber saved) \<and>
    carrier a2 = carrier a1 \<and> code (carrier b) \<noteq> code (carrier a1) \<and>
    status a1 = Delivered \<and> transitDays a1 = Some 2 \<and>
    status a2 = Delivered \<and> transitDays a2 = Some 4 \<and>
    status b = In_transit \<and> transitDays b = Some 0"
  then have "mset saved = {#a1, a2, b#}" and "distinct (map trackingNumber saved)"
    and "carrier a2 = carrier a1" and "code (carrier b) \<noteq> code (carrier a1)"
    by simp_all
  then show "mset (map (\<lambda>e. (carrierCode e, carrierName e, count e, percentage e))
             (getCourierDistribution (getTrackings (fold saveTracking saved None)))) =
        {#(code (carrier a1), name (carrier a1), 2, 67),
          (code (carrier b), name (carrier b), 1, 33)#}"
    by (rule stored_three_trackings)
qed

lemma three_parcels_flash:
  "name (carrier (hd (members ''flash'' [parcel_b, parcel_a1, parcel_a2]))) = ''Flash Express''"
  "length (members ''flash'' [parcel_b, parcel_a1, parcel_a2]) = 1"
  "\<not> halfway (share ''flash'' [parcel_b, parcel_a1, parcel_a2])"
  "round_half_up (share ''flash'' [parcel_b, parcel_a1, parcel_a2]) = 33"
  "qualifying ''flash'' [parcel_b, parcel_a1, parcel_a2] = []"
  by code_simp+

lemma three_parcels_kerry:
  "name (carrier (hd (members ''kerry'' [parcel_b, parcel_a1, parcel_a2]))) = ''Kerry Express''"
  "length (members ''kerry'' [parcel_b, parcel_a1, parcel_a2]) = 2"
  "\<not> halfway (share ''kerry'' [parcel_b, parcel_a1, parcel_a2])"
  "round_half_up (share ''kerry'' [parcel_b, parcel_a1, parcel_a2]) = 67"
  "qualifying ''kerry'' [parcel_b, parcel_a1, parcel_a2] \<noteq> []"
  "list_all (\<lambda>t. whole (transitDays_or_0 t)) (qualifying ''kerry'' [parcel_b, parcel_a1, parcel_a2])"
  "sum_list (map transitDays_or_0 (qualifying ''kerry'' [parcel_b, parcel_a1, parcel_a2])) < 2 ^ 52"
  "round_half_up (mean_transitDays ''kerry'' [parcel_b, parcel_a1, parcel_a2]) = 3"
  by code_simp+

lemma three_parcels_codes:
  "first_occurrences (map (\<lambda>t. code (carrier t)) [parcel_b, parcel_a1, parcel_a2]) =
     [''flash'', ''kerry'']"
  by code_simp

lemma three_parcels:
  "mset [parcel_b, parcel_a1, parcel_a2] = {#parcel_a1, parcel_a2, parcel_b#} \<and>
   distinct (map trackingNumber [parcel_b, parcel_a1, parcel_a2]) \<and>
   carrier parcel_a2 = carrier parcel_a1 \<and>
   code (carrier parcel_b) \<noteq> code (carrier parcel_a1) \<and>
   status parcel_a1 = Delivered \<and> transitDays parcel_a1 = Some 2 \<and>
   status parcel_a2 = Delivered \<and> transitDays parcel_a2 = Some 4 \<and>
   status parcel_b = In_transit \<and> transitDays parcel_b = Some 0"
  by (simp add: parcel_a1_def parcel_a2_def parcel_b_def sample_tracking_def)

theorem getCourierDistribution_by_carrier_witness:
  "length [parcel_b, parcel_a1, parcel_a2] < 2 ^ 32 \<and>
   \<not> halfway (share ''kerry'' [parcel_b, parcel_a1, parcel_a2]) \<and>
   \<not> halfway (share ''flash'' [parcel_b, parcel_a1, parcel_a2]) \<and>
   qualifying ''kerry'' [parcel_b, parcel_a1, parcel_a2] \<noteq> [] \<and>
   list_all (\<lambda>t. whole (transitDays_or_0 t))
     (qualifying ''kerry'' [parcel_b, parcel_a1, parcel_a2]) \<and>
   sum_list (map transitDays_or_0 (qualifying ''kerry'' [parcel_b, parcel_a1, parcel_a2]))
     < 2 ^ 52 \<and>
   getCourierDistribution [parcel_b, parcel_a1, parcel_a2] =
     [\<lparr>carrierCode = ''flash'', carrierName = ''Flash Express'', count = 1,
       percentage = 33, avgTransitDays = None\<rparr>,
      \<lparr>carrierCode = ''kerry'', carrierName = ''Kerry Express'', count = 2,
       percentage = 67, avgTransitDays = Some 3\<rparr>] \<and>
   mset [parcel_b, parcel_a1, parcel_a2] = {#parcel_a1, parcel_a2, parcel_b#} \<and>
   distinct (map trackingNumber [parcel_b, parcel_a1, parcel_a2]) \<and>
   carrier parcel_a2 = carrier parcel_a1 \<and>
   code (carrier parcel_b) \<noteq> code (carrier parcel_a1) \<and>
   status parcel_a1 = Delivered \<and> transitDays parcel_a1 = Some 2 \<and>
   status parcel_a2 = Delivered \<and> transitDays parcel_a2 = Some 4 \<and>
   status parcel_b = In_transit \<and> transitDays parcel_b = Some 0 \<and>
   mset (map (\<lambda>e. (carrierCode e, carrierName e, count e, percentage e))
          (getCourierDistribution
             (getTrackings (fold saveTracking [parcel_b, parcel_a1, parcel_a2] None)))) =
     {#(''kerry'', ''Kerry Express'', 2, 67), (''flash'', ''Flash Express'', 1, 33)#}"
proof -
  let ?s = "[parcel_b, parcel_a1, parcel_a2]"
  note inst = getCourierDistribution_by_carrier [of ?s ?s parcel_a1 parcel_a2 parcel_b]
  have len: "length ?s < 2 ^ 32"
    by simp
  from inst len
  have codes: "map carrierCode (getCourierDistribution ?s) =
                 first_occurrences (map (\<lambda>t. code (carrier t)) ?s)"
    and entries: "\<forall>e \<in> set (getCourierDistribution ?s).
         carrierName e = name (carrier (hd (members (carrierCode e) ?s))) \<and>
         count e = length (members (carrierCode e) ?s) \<and>
         (\<not> halfway (share (carrierCode e) ?s) \<longrightarrow>
            percentage e = round_half_up (share (carrierCode e) ?s)) \<and>
         (avgTransitDays e = None \<longleftrightarrow> qualifying (carrierCode e) ?s = []) \<and>
         (qualifying (carrierCode e) ?s \<noteq> [] \<and>
          list_all (\<lambda>t. whole (transitDays_or_0 t)) (qualifying (carrierCode e) ?s) \<and>
          sum_list (map transitDays_or_0 (qualifying (carrierCode e) ?s)) < 2 ^ 52 \<longrightarrow>
            avgTransitDays e = Some (round_half_up (mean_transitDays (carrierCode e) ?s)))"
    by blast+
  from codes have "map carrierCode (getCourierDistribution ?s) = [''flash'', ''kerry'']"
    by (simp only: three_parcels_codes)
  then obtain e1 e2 where list: "getCourierDistribution ?s = [e1, e2]"
    and c1: "carrierCode e1 = ''flash''" and c2: "carrierCode e2 = ''kerry''"
    by (auto simp: map_eq_Cons_conv)
  from entries list c1 have
    "carrierName e1 = ''Flash Express'' \<and> count e1 = 1 \<and> percentage e1 = 33 \<and>
     avgTransitDays e1 = None"
    using three_parcels_flash by simp
  with c1 have e1: "e1 = \<lparr>carrierCode = ''flash'', carrierName = ''Flash Express'', count = 1,
       percentage = 33, avgTransitDays = None\<rparr>"
    by (cases e1) simp
  from entries list c2 have
    "carrierName e2 = ''Kerry Express'' \<and> count e2 = 2 \<and> percentage e2 = 67 \<and>
     avgTransitDays e2 = Some 3"
    using three_parcels_kerry by simp
  with c2 have e2: "e2 = \<lparr>carrierCode = ''kerry'', carrierName = ''Kerry Express'', count = 2,
       percentage = 67, avgTransitDays = Some 3\<rparr>"
    by (cases e2) simp
  have dist: "getCourierDistribution ?s =
     [\<lparr>carrierCode = ''flash'', carrierName = ''Flash Express'', count = 1,
       percentage = 33, avgTransitDays = None\<rparr>,
      \<lparr>carrierCode = ''kerry'', carrierName = ''Kerry Express'', count = 2,
       percentage = 67, avgTransitDays = Some 3\<rparr>]"
    by (simp only: list e1 e2)
  have fields: "code (carrier parcel_a1) = ''kerry''" "name (carrier parcel_a1) = ''Kerry Express''"
    "code (carrier parcel_b) = ''flash''" "name (carrier parcel_b) = ''Flash Express''"
    by (simp_all add: parcel_a1_def parcel_b_def sample_tracking_def)
  from inst three_parcels
  have "mset (map (\<lambda>e. (carrierCode e, carrierName e, count e, percentage e))
          (getCourierDistribution (getTrackings (fold saveTracking ?s None)))) =
     {#(code (carrier parcel_a1), name (carrier parcel_a1), 2, 67),
       (code (carrier parcel_b), name (carrier parcel_b), 1, 33)#}"
    by blast
  then have stored: "mset (map (\<lambda>e. (carrierCode e, carrierName e, count e, percentage e))
          (getCourierDistribution (getTrackings (fold saveTracking ?s None)))) =
     {#(''kerry'', ''Kerry Express'', 2, 67), (''flash'', ''Flash Express'', 1, 33)#}"
    by (simp only: fields)
  from len dist stored three_parcels three_parcels_kerry(3,5,6,7) three_parcels_flash(3)
  show ?thesis
    by blast
qed


end
